theory Spec2Isabelle
  imports Main "HOL-Library.Word" "HOL-Library.Signed_Division"
begin

section \<open>Outcomes of a run\<close>

text \<open>
  Every \<^verbatim>\<open>CHECK\<close> macro and every \<^verbatim>\<open>LOG(FATAL)\<close> of
  \<^verbatim>\<open>data_layer.cpp\<close> aborts the process.  Each such site is a constructor of
  \<open>check\<close>.  Places where C++ gives the program no meaning at all (an index outside a
  buffer, an iterator used while invalid, a remainder by zero) are kept apart as
  \<open>Undefined\<close>, so that an abort the code asks for is never confused with one it merely
  runs into.
\<close>

datatype check =
    CHECK_prefetch_data_count
  | FATAL_mirror_requires_crop
  | CHECK_iter
  | CHECK_iter_Valid
  | CHECK_mdb_get_current
  | CHECK_mdb_first
  | FATAL_unknown_backend
  | CHECK_data_size
  | CHECK_prefetch_rng
  | FATAL_layer_setup
  | CHECK_label_dim_unused
  | CHECK_label_dim_ge_1
  | CHECK_label_dim_backend
  | CHECK_leveldb_open
  | CHECK_mdb_env_create
  | CHECK_mdb_env_set_mapsize
  | CHECK_mdb_env_open
  | CHECK_mdb_txn_begin
  | CHECK_mdb_open
  | CHECK_mdb_cursor_open
  | FATAL_rand_skip_hdf5
  | CHECK_height_gt_crop
  | CHECK_width_gt_crop
  | FATAL_read_mean_file
  | CHECK_mean_num
  | CHECK_mean_channels
  | CHECK_mean_height
  | CHECK_mean_width
  | CHECK_H5Fopen
  | CHECK_H5Fclose
  | CHECK_num_rows
  | CHECK_pthread_start
  | CHECK_pthread_join

datatype undefined_behaviour =
    UB_index_out_of_range
  | UB_iterator_invalid
  | UB_remainder_by_zero
  | UB_null_pointer

datatype failure = Fatal check | Undefined undefined_behaviour

definition bindE :: "failure + 'a \<Rightarrow> ('a \<Rightarrow> failure + 'b) \<Rightarrow> failure + 'b" where
  "bindE m f = (case m of Inl e \<Rightarrow> Inl e | Inr x \<Rightarrow> f x)"

definition CHECK :: "bool \<Rightarrow> check \<Rightarrow> failure + unit" where
  "CHECK ok site = (if ok then Inr () else Inl (Fatal site))"

text \<open>Reading and writing through a raw pointer: inside the buffer or undefined.\<close>

definition load :: "'a list \<Rightarrow> int \<Rightarrow> failure + 'a" where
  "load xs i = (if 0 \<le> i \<and> i < int (length xs) then Inr (xs ! nat i)
                else Inl (Undefined UB_index_out_of_range))"

definition store :: "'a list \<Rightarrow> int \<Rightarrow> 'a \<Rightarrow> failure + 'a list" where
  "store xs i v = (if 0 \<le> i \<and> i < int (length xs) then Inr (xs[nat i := v])
                   else Inl (Undefined UB_index_out_of_range))"

text \<open>\<^verbatim>\<open>for (int i = start; i < n; ++i) body\<close>, stopping at the first failure.\<close>

function for_from :: "int \<Rightarrow> int \<Rightarrow> (int \<Rightarrow> 's \<Rightarrow> failure + 's) \<Rightarrow> 's \<Rightarrow> failure + 's" where
  "for_from i n body s =
     (if i < n then (case body i s of Inl e \<Rightarrow> Inl e | Inr s' \<Rightarrow> for_from (i + 1) n body s')
      else Inr s)"
  by pat_completeness auto
termination
  by (relation "measure (\<lambda>(i, n, body, s). nat (n - i))") auto

declare for_from.simps [simp del]

section \<open>Data model\<close>

datatype Phase = TRAIN | TEST

datatype DB = LEVELDB | LMDB | HDF5

text \<open>
  The protobuf message \<^verbatim>\<open>Datum\<close>.  \<open>data\<close> holds the bytes of the string field, read
  in the source as \<^verbatim>\<open>static_cast<uint8_t>(data[i])\<close>; \<open>float_data\<close> is the repeated
  float field.  A stored record is kept in decoded form.
\<close>

record 'f Datum =
  channels :: int
  height :: int
  width :: int
  data :: "8 word list"
  label :: int
  float_data :: "'f list"

text \<open>
  \<^verbatim>\<open>layer_param_.data_param()\<close>, with the values as the code reads them into
  \<^verbatim>\<open>int\<close>, \<^verbatim>\<open>unsigned int\<close>, \<^verbatim>\<open>bool\<close> and \<^verbatim>\<open>Dtype\<close> locals, and the one field of
  \<^verbatim>\<open>hdf5_data_param()\<close> that \<^verbatim>\<open>LoadNextHdfBatch\<close> reads.
\<close>

record 'd DataParameter =
  source :: string
  backend :: DB
  batch_size :: int
  crop_size :: int
  mirror :: bool
  scale :: 'd
  label_dim :: int
  rand_skip :: "32 word"
  mean_file :: "string option"
  hdf5_batch_size :: nat

text \<open>
  Modelled from the spec: the tensor container \<^verbatim>\<open>Blob\<close> is not part of the source
  file; the spec assumes it exposes allocate, reshape and raw-pointer access.  A blob is
  its four dimensions and its flat buffer.
\<close>

record 'd Blob =
  shape_num :: int
  shape_channels :: int
  shape_height :: int
  shape_width :: int
  cpu_data :: "'d list"

definition count :: "'d Blob \<Rightarrow> int" where
  "count b = shape_num b * shape_channels b * shape_height b * shape_width b"

definition Reshape :: "int \<Rightarrow> int \<Rightarrow> int \<Rightarrow> int \<Rightarrow> ('d::zero) Blob" where
  "Reshape n c h w =
     \<lparr>shape_num = n, shape_channels = c, shape_height = h, shape_width = w,
      cpu_data = replicate (nat (n * c * h * w)) 0\<rparr>"

definition empty_blob :: "('d::zero) Blob" where
  "empty_blob = Reshape 0 0 0 0"

text \<open>
  Modelled from the spec: the generators behind \<^verbatim>\<open>caffe_rng_rand()\<close> and
  \<^verbatim>\<open>Caffe::RNG\<close> are not part of the source file.  A generator is the sequence of 32-bit
  values it will return and the number of values already taken from it.
\<close>

datatype rng_t = RNG (draws: "nat \<Rightarrow> 32 word") (used: nat)

definition rng_call :: "rng_t \<Rightarrow> 32 word \<times> rng_t" where
  "rng_call g = (draws g (used g), RNG (draws g) (Suc (used g)))"

text \<open>
  Modelled from the spec: the stores behind the sorted-store and transactional-store
  cursors are external libraries.  A cursor is the ordered list of records and a
  position in it; the position \<open>length records\<close> is the state past the last record.
\<close>

record 'f Cursor =
  records :: "'f Datum list"
  pos :: nat

definition Valid :: "'f Cursor \<Rightarrow> bool" where
  "Valid it = (pos it < length (records it))"

definition SeekToFirst :: "'f Cursor \<Rightarrow> 'f Cursor" where
  "SeekToFirst it = it\<lparr>pos := (if records it = [] then length (records it) else 0)\<rparr>"

definition Next :: "'f Cursor \<Rightarrow> failure + 'f Cursor" where
  "Next it = (if Valid it then Inr (it\<lparr>pos := pos it + 1\<rparr>)
              else Inl (Undefined UB_iterator_invalid))"

definition iter_value :: "'f Cursor \<Rightarrow> failure + 'f Datum" where
  "iter_value it = (if Valid it then Inr (records it ! pos it)
                    else Inl (Undefined UB_iterator_invalid))"

datatype MDB_cursor_op = MDB_FIRST | MDB_GET_CURRENT | MDB_NEXT

text \<open>
  \<^verbatim>\<open>mdb_cursor_get\<close>: the new cursor and, on \<^verbatim>\<open>MDB_SUCCESS\<close>, the record now under
  it (the value written to \<^verbatim>\<open>mdb_value_\<close>); \<open>None\<close> is any other return code.
\<close>

fun mdb_cursor_get :: "'f Cursor \<Rightarrow> MDB_cursor_op \<Rightarrow> 'f Cursor \<times> 'f Datum option" where
  "mdb_cursor_get cur MDB_FIRST =
     (case records cur of [] \<Rightarrow> (cur, None) | d # ds \<Rightarrow> (cur\<lparr>pos := 0\<rparr>, Some d))"
| "mdb_cursor_get cur MDB_GET_CURRENT =
     (if pos cur < length (records cur) then (cur, Some (records cur ! pos cur)) else (cur, None))"
| "mdb_cursor_get cur MDB_NEXT =
     (if pos cur + 1 < length (records cur)
      then (cur\<lparr>pos := pos cur + 1\<rparr>, Some (records cur ! (pos cur + 1)))
      else (cur, None))"

text \<open>
  Modelled from the spec: a file of the file-set backend holds two row-indexed datasets,
  "data" and "label".  \<open>row_shape\<close> is the shape of one data row, \<open>label_width\<close> the length
  of one label row.
\<close>

record 'd hdf_file =
  row_shape :: "int \<times> int \<times> int"
  data_rows :: "'d list list"
  label_width :: int
  label_rows :: "'d list list"
  close_ok :: bool

text \<open>
  Modelled from the spec: \<^verbatim>\<open>hdf5_load_nd_dataset(file, name, min, max, blob, row, n)\<close> is
  not part of the source file.  Following section 4.5 it reads up to \<open>n\<close> rows starting at
  row \<open>row\<close> and shapes the blob after the rows it read.
\<close>

definition hdf5_load_rows :: "int \<times> int \<times> int \<Rightarrow> 'd list list \<Rightarrow> nat \<Rightarrow> nat \<Rightarrow> 'd Blob" where
  "hdf5_load_rows shp rows row n =
     (let got = take n (drop row rows) in
      \<lparr>shape_num = int (length got), shape_channels = fst shp, shape_height = fst (snd shp),
       shape_width = snd (snd shp), cpu_data = concat got\<rparr>)"

text \<open>
  What the layer finds outside itself: the conversions into \<^verbatim>\<open>Dtype\<close>, the stores and
  files by path, the process-wide phase, the number of output tensors handed to
  \<^verbatim>\<open>SetUp\<close>, and the outcome of the calls into the base class, LMDB and the thread
  library.
\<close>

record ('d, 'f) World =
  cast_uint8 :: "8 word \<Rightarrow> 'd"
  cast_float :: "'f \<Rightarrow> 'd"
  cast_label :: "int \<Rightarrow> 'd"
  new_RNG :: "32 word \<Rightarrow> nat \<Rightarrow> 32 word"
  Caffe_phase :: Phase
  top_size :: nat
  Layer_SetUp_ok :: bool
  leveldb_Open :: "string \<Rightarrow> 'f Datum list option"
  mdb_env_create_ok :: bool
  mdb_env_set_mapsize_ok :: bool
  mdb_env_open :: "string \<Rightarrow> 'f Datum list option"
  mdb_txn_begin_ok :: bool
  mdb_open_ok :: bool
  mdb_cursor_open_ok :: bool
  ifstream_tokens :: "string \<Rightarrow> string list option"
  H5Fopen :: "string \<Rightarrow> 'd hdf_file option"
  ReadProtoFromBinaryFile :: "string \<Rightarrow> 'd Blob option"
  StartInternalThread_ok :: bool
  WaitForInternalThreadToExit_ok :: bool

text \<open>The members of \<^verbatim>\<open>DataLayer\<close> and the process-wide generator.\<close>

record ('d, 'f) DataLayer =
  output_labels :: bool
  iter :: "'f Cursor option"
  mdb_cursor :: "'f Cursor option"
  mdb_value :: "'f Datum option"
  hdf_filenames :: "string list"
  hdf_num_files :: nat
  hdf_current_file :: nat
  hdf_current_row :: nat
  buffer_data :: "'d Blob"
  buffer_label :: "'d Blob"
  datum_channels :: int
  datum_height :: int
  datum_width :: int
  datum_size :: int
  label_channels :: int
  data_mean :: "'d Blob"
  prefetch_data :: "'d Blob"
  prefetch_label :: "'d Blob"
  phase :: Phase
  prefetch_rng :: "rng_t option"
  caffe_rng :: rng_t
  thread_started :: bool

section \<open>The prefetch pass\<close>

text \<open>\<^verbatim>\<open>DataLayer::PrefetchRand\<close>.\<close>

definition PrefetchRand :: "('d, 'f) DataLayer \<Rightarrow> failure + (32 word \<times> ('d, 'f) DataLayer)" where
  "PrefetchRand L =
     (case prefetch_rng L of
        None \<Rightarrow> Inl (Fatal CHECK_prefetch_rng)
      | Some g \<Rightarrow> Inr (fst (rng_call g), L\<lparr>prefetch_rng := Some (snd (rng_call g))\<rparr>))"

text \<open>
  \<^verbatim>\<open>PrefetchRand() % n\<close> for an \<^verbatim>\<open>int n\<close>, stored in an \<^verbatim>\<open>int\<close>: \<open>n\<close> is converted to
  \<^verbatim>\<open>unsigned int\<close>, the remainder is unsigned, and the result is converted back.
\<close>

definition rand_mod :: "32 word \<Rightarrow> int \<Rightarrow> failure + int" where
  "rand_mod r n =
     (if (word_of_int n :: 32 word) = 0 then Inl (Undefined UB_remainder_by_zero)
      else Inr (sint (r mod (word_of_int n :: 32 word))))"

text \<open>The switch that fetches the record under the cursor (\<^verbatim>\<open>// get a blob\<close>).\<close>

definition get_datum ::
  "'d DataParameter \<Rightarrow> ('d, 'f) DataLayer \<Rightarrow> failure + ('f Datum \<times> ('d, 'f) DataLayer)" where
  "get_datum P L =
     (case backend P of
        LEVELDB \<Rightarrow>
          (case iter L of
             None \<Rightarrow> Inl (Fatal CHECK_iter)
           | Some it \<Rightarrow>
               bindE (CHECK (Valid it) CHECK_iter_Valid) (\<lambda>_.
               bindE (iter_value it) (\<lambda>d. Inr (d, L))))
      | LMDB \<Rightarrow>
          (case mdb_cursor L of
             None \<Rightarrow> Inl (Undefined UB_null_pointer)
           | Some cur \<Rightarrow>
               (case mdb_cursor_get cur MDB_GET_CURRENT of
                  (cur', Some d) \<Rightarrow> Inr (d, L\<lparr>mdb_cursor := Some cur', mdb_value := Some d\<rparr>)
                | (cur', None) \<Rightarrow> Inl (Fatal CHECK_mdb_get_current)))
      | HDF5 \<Rightarrow> Inl (Fatal FATAL_unknown_backend))"

text \<open>The switch that moves the cursor on (\<^verbatim>\<open>// go to the next iter\<close>).\<close>

definition next_iter :: "'d DataParameter \<Rightarrow> ('d, 'f) DataLayer \<Rightarrow> failure + ('d, 'f) DataLayer" where
  "next_iter P L =
     (case backend P of
        LEVELDB \<Rightarrow>
          (case iter L of
             None \<Rightarrow> Inl (Undefined UB_null_pointer)
           | Some it \<Rightarrow>
               bindE (Next it) (\<lambda>it'.
               Inr (L\<lparr>iter := Some (if \<not> Valid it' then SeekToFirst it' else it')\<rparr>)))
      | LMDB \<Rightarrow>
          (case mdb_cursor L of
             None \<Rightarrow> Inl (Undefined UB_null_pointer)
           | Some cur \<Rightarrow>
               (case mdb_cursor_get cur MDB_NEXT of
                  (cur', Some d) \<Rightarrow> Inr (L\<lparr>mdb_cursor := Some cur', mdb_value := Some d\<rparr>)
                | (cur', None) \<Rightarrow>
                    (case mdb_cursor_get cur' MDB_FIRST of
                       (cur'', Some d) \<Rightarrow> Inr (L\<lparr>mdb_cursor := Some cur'', mdb_value := Some d\<rparr>)
                     | (cur'', None) \<Rightarrow> Inl (Fatal CHECK_mdb_first))))
      | HDF5 \<Rightarrow> Inl (Fatal FATAL_unknown_backend))"

text \<open>The crop offsets: random in the train phase, the centre otherwise.\<close>

definition crop_offsets ::
  "'d DataParameter \<Rightarrow> ('d, 'f) DataLayer \<Rightarrow> failure + ((int \<times> int) \<times> ('d, 'f) DataLayer)" where
  "crop_offsets P L =
     (if phase L = TRAIN then
        bindE (PrefetchRand L) (\<lambda>(r1, L1).
        bindE (rand_mod r1 (datum_height L - crop_size P)) (\<lambda>h_off.
        bindE (PrefetchRand L1) (\<lambda>(r2, L2).
        bindE (rand_mod r2 (datum_width L - crop_size P)) (\<lambda>w_off.
        Inr ((h_off, w_off), L2)))))
      else Inr (((datum_height L - crop_size P) sdiv 2, (datum_width L - crop_size P) sdiv 2), L))"

text \<open>The condition \<^verbatim>\<open>mirror && PrefetchRand() % 2\<close>, with its short circuit.\<close>

definition mirror_draw ::
  "'d DataParameter \<Rightarrow> ('d, 'f) DataLayer \<Rightarrow> failure + (bool \<times> ('d, 'f) DataLayer)" where
  "mirror_draw P L =
     (if mirror P then bindE (PrefetchRand L) (\<lambda>(r, L'). Inr (r mod 2 \<noteq> 0, L'))
      else Inr (False, L))"

text \<open>The two triple loops of the cropped copy.\<close>

definition copy_mirrored ::
  "('d::{minus,times}, 'f) World \<Rightarrow> 'd DataParameter \<Rightarrow> ('d, 'f) DataLayer \<Rightarrow> 8 word list \<Rightarrow>
     int \<Rightarrow> int \<Rightarrow> int \<Rightarrow> 'd list \<Rightarrow> failure + 'd list" where
  "copy_mirrored W P L dat item_id h_off w_off =
     for_from 0 (datum_channels L) (\<lambda>c.
     for_from 0 (crop_size P) (\<lambda>h.
     for_from 0 (crop_size P) (\<lambda>w top_data.
       let top_index = ((item_id * datum_channels L + c) * crop_size P + h) * crop_size P
                         + (crop_size P - 1 - w);
           data_index = (c * datum_height L + h + h_off) * datum_width L + w + w_off
       in bindE (load dat data_index) (\<lambda>datum_element.
          bindE (load (cpu_data (data_mean L)) data_index) (\<lambda>m.
          store top_data top_index ((cast_uint8 W datum_element - m) * scale P))))))"

definition copy_normal ::
  "('d::{minus,times}, 'f) World \<Rightarrow> 'd DataParameter \<Rightarrow> ('d, 'f) DataLayer \<Rightarrow> 8 word list \<Rightarrow>
     int \<Rightarrow> int \<Rightarrow> int \<Rightarrow> 'd list \<Rightarrow> failure + 'd list" where
  "copy_normal W P L dat item_id h_off w_off =
     for_from 0 (datum_channels L) (\<lambda>c.
     for_from 0 (crop_size P) (\<lambda>h.
     for_from 0 (crop_size P) (\<lambda>w top_data.
       let top_index = ((item_id * datum_channels L + c) * crop_size P + h) * crop_size P + w;
           data_index = (c * datum_height L + h + h_off) * datum_width L + w + w_off
       in bindE (load dat data_index) (\<lambda>datum_element.
          bindE (load (cpu_data (data_mean L)) data_index) (\<lambda>m.
          store top_data top_index ((cast_uint8 W datum_element - m) * scale P))))))"

text \<open>The two flat loops of the uncropped copy: bytes first, floats otherwise.\<close>

definition copy_bytes ::
  "('d::{minus,times}, 'f) World \<Rightarrow> 'd DataParameter \<Rightarrow> ('d, 'f) DataLayer \<Rightarrow> 8 word list \<Rightarrow>
     int \<Rightarrow> 'd list \<Rightarrow> failure + 'd list" where
  "copy_bytes W P L dat item_id =
     for_from 0 (datum_size L) (\<lambda>j top_data.
       bindE (load dat j) (\<lambda>datum_element.
       bindE (load (cpu_data (data_mean L)) j) (\<lambda>m.
       store top_data (item_id * datum_size L + j) ((cast_uint8 W datum_element - m) * scale P))))"

definition copy_floats ::
  "('d::{minus,times}, 'f) World \<Rightarrow> 'd DataParameter \<Rightarrow> ('d, 'f) DataLayer \<Rightarrow> 'f list \<Rightarrow>
     int \<Rightarrow> 'd list \<Rightarrow> failure + 'd list" where
  "copy_floats W P L fdat item_id =
     for_from 0 (datum_size L) (\<lambda>j top_data.
       bindE (load fdat j) (\<lambda>x.
       bindE (load (cpu_data (data_mean L)) j) (\<lambda>m.
       store top_data (item_id * datum_size L + j) ((cast_float W x - m) * scale P))))"

text \<open>
  One pass of the item loop between fetching the record and moving the cursor: the
  transform into \<open>top_data\<close> and the label.
\<close>

definition fill_item ::
  "('d::{minus,times}, 'f) World \<Rightarrow> 'd DataParameter \<Rightarrow> 'f Datum \<Rightarrow> int \<Rightarrow>
     ('d, 'f) DataLayer \<times> 'd list \<times> 'd list \<Rightarrow>
     failure + (('d, 'f) DataLayer \<times> 'd list \<times> 'd list)" where
  "fill_item W P datum item_id = (\<lambda>(L, top_data, top_label).
     bindE
       (if crop_size P \<noteq> 0 then
          bindE (CHECK (data datum \<noteq> []) CHECK_data_size) (\<lambda>_.
          bindE (crop_offsets P L) (\<lambda>((h_off, w_off), L1).
          bindE (mirror_draw P L1) (\<lambda>(mirrored, L2).
          bindE ((if mirrored then copy_mirrored else copy_normal)
                   W P L (data datum) item_id h_off w_off top_data) (\<lambda>top_data'.
          Inr (L2, top_data')))))
        else
          bindE (if data datum \<noteq> [] then copy_bytes W P L (data datum) item_id top_data
                 else copy_floats W P L (float_data datum) item_id top_data) (\<lambda>top_data'.
          Inr (L, top_data')))
       (\<lambda>(L', top_data').
          if output_labels L then
            bindE (store top_label item_id (cast_label W (label datum))) (\<lambda>top_label'.
            Inr (L', top_data', top_label'))
          else Inr (L', top_data', top_label)))"

definition item_body ::
  "('d::{minus,times}, 'f) World \<Rightarrow> 'd DataParameter \<Rightarrow> int \<Rightarrow>
     ('d, 'f) DataLayer \<times> 'd list \<times> 'd list \<Rightarrow>
     failure + (('d, 'f) DataLayer \<times> 'd list \<times> 'd list)" where
  "item_body W P item_id = (\<lambda>(L, top_data, top_label).
     bindE (get_datum P L) (\<lambda>(datum, L1).
     bindE (fill_item W P datum item_id (L1, top_data, top_label)) (\<lambda>(L2, top_data', top_label').
     bindE (next_iter P L2) (\<lambda>L3.
     Inr (L3, top_data', top_label')))))"

text \<open>
  \<^verbatim>\<open>DataLayer::InternalThreadEntry\<close>.  \<open>top_data\<close> and \<open>top_label\<close> point into the
  prefetch blobs, so the buffers the loop leaves are the blobs' new contents.
\<close>

definition InternalThreadEntry ::
  "('d::{minus,times}, 'f) World \<Rightarrow> 'd DataParameter \<Rightarrow> ('d, 'f) DataLayer \<Rightarrow>
     failure + ('d, 'f) DataLayer" where
  "InternalThreadEntry W P L =
     bindE (CHECK (count (prefetch_data L) \<noteq> 0) CHECK_prefetch_data_count) (\<lambda>_.
     if mirror P \<and> crop_size P = 0 then Inl (Fatal FATAL_mirror_requires_crop)
     else
       bindE (for_from 0 (batch_size P) (item_body W P)
                (L, cpu_data (prefetch_data L), cpu_data (prefetch_label L)))
         (\<lambda>(L', top_data, top_label).
            Inr (L'\<lparr>prefetch_data := (prefetch_data L')\<lparr>cpu_data := top_data\<rparr>,
                    prefetch_label := (prefetch_label L')\<lparr>cpu_data := top_label\<rparr>\<rparr>)))"

text \<open>
  \<^verbatim>\<open>DataLayer::CreatePrefetchThread\<close> sets the phase and the pipeline generator and
  starts the producer thread; it returns as soon as the thread is started.  The thread
  runs \<open>InternalThreadEntry\<close> on the layer while the caller goes on, and the caller reads
  nothing the pass writes before it has joined the thread.  The started thread is the
  flag \<open>thread_started\<close>, and the pass it runs takes effect where the caller waits for
  it, in \<open>JoinPrefetchThread\<close>.  A fatal check in the pass ends the process at some
  moment after the start; the caller meets it at the join at the latest.
\<close>

definition CreatePrefetchThread ::
  "('d, 'f) World \<Rightarrow> 'd DataParameter \<Rightarrow> ('d, 'f) DataLayer \<Rightarrow>
     failure + ('d, 'f) DataLayer" where
  "CreatePrefetchThread W P L =
     (let L1 = L\<lparr>phase := Caffe_phase W\<rparr>;
          prefetch_needs_rand = (phase L1 = TRAIN \<and> (mirror P \<or> crop_size P \<noteq> 0));
          L2 = (if prefetch_needs_rand then
                  L1\<lparr>caffe_rng := snd (rng_call (caffe_rng L1)),
                      prefetch_rng := Some (RNG (new_RNG W (fst (rng_call (caffe_rng L1)))) 0)\<rparr>
                else L1\<lparr>prefetch_rng := None\<rparr>)
      in bindE (CHECK (StartInternalThread_ok W) CHECK_pthread_start) (\<lambda>_.
         Inr (L2\<lparr>thread_started := True\<rparr>)))"

text \<open>
  \<^verbatim>\<open>DataLayer::JoinPrefetchThread\<close>: the caller waits for the pass of the started thread
  and then checks the result of the join.
\<close>

definition JoinPrefetchThread ::
  "('d::{minus,times}, 'f) World \<Rightarrow> 'd DataParameter \<Rightarrow> ('d, 'f) DataLayer \<Rightarrow>
     failure + ('d, 'f) DataLayer" where
  "JoinPrefetchThread W P L =
     bindE (if thread_started L then InternalThreadEntry W P L else Inr L) (\<lambda>L'.
     bindE (CHECK (WaitForInternalThreadToExit_ok W) CHECK_pthread_join) (\<lambda>_.
     Inr (L'\<lparr>thread_started := False\<rparr>)))"

text \<open>
  \<^verbatim>\<open>DataLayer::Forward_cpu\<close>: the join, the batch copied to the consumer's tensors, and
  the start of the thread for the next pass.
\<close>

definition Forward_cpu ::
  "('d::{minus,times}, 'f) World \<Rightarrow> 'd DataParameter \<Rightarrow> ('d, 'f) DataLayer \<Rightarrow>
     failure + (('d list \<times> 'd list option) \<times> ('d, 'f) DataLayer)" where
  "Forward_cpu W P L =
     bindE (JoinPrefetchThread W P L) (\<lambda>L1.
     bindE (CreatePrefetchThread W P L1) (\<lambda>L2.
     Inr ((cpu_data (prefetch_data L1),
           if output_labels L1 then Some (cpu_data (prefetch_label L1)) else None), L2)))"

section \<open>The file-set backend\<close>

text \<open>\<^verbatim>\<open>caffe_copy(n, src, dst + off)\<close>: \<open>n\<close> elements of \<open>src\<close> written at \<open>dst + off\<close>.\<close>

definition caffe_copy :: "int \<Rightarrow> 'a list \<Rightarrow> 'a list \<Rightarrow> int \<Rightarrow> failure + 'a list" where
  "caffe_copy n src dst off =
     (if 0 \<le> n \<and> n \<le> int (length src) \<and> 0 \<le> off \<and> off + n \<le> int (length dst)
      then Inr (take (nat off) dst @ take (nat n) src @ drop (nat (off + n)) dst)
      else Inl (Undefined UB_index_out_of_range))"

text \<open>\<^verbatim>\<open>Blob::offset(n, 0, 0, 0)\<close>.\<close>

definition offset :: "'d Blob \<Rightarrow> int \<Rightarrow> int" where
  "offset b n = ((n * shape_channels b + 0) * shape_height b + 0) * shape_width b + 0"

text \<open>
  The body of the loop of \<^verbatim>\<open>DataLayer::LoadNextHdfBatch\<close>: the new value of
  \<open>loaded_so_far\<close> and the layer.  The first two loads into \<open>buffer_data\<close> are overwritten
  by the third.
\<close>

definition LoadNextHdfBatch_body ::
  "('d, 'f) World \<Rightarrow> 'd DataParameter \<Rightarrow> nat \<Rightarrow> ('d, 'f) DataLayer \<Rightarrow>
     failure + (nat \<times> ('d, 'f) DataLayer)" where
  "LoadNextHdfBatch_body W P loaded_so_far L =
     bindE (load (hdf_filenames L) (int (hdf_current_file L))) (\<lambda>filename.
     case H5Fopen W filename of
       None \<Rightarrow> Inl (Fatal CHECK_H5Fopen)
     | Some f \<Rightarrow>
         let L1 = L\<lparr>buffer_data :=
                    hdf5_load_rows (row_shape f) (data_rows f) 0 (length (data_rows f))\<rparr>;
             L2 = L1\<lparr>buffer_data := hdf5_load_rows (row_shape f) (data_rows f) 0 0\<rparr>;
             L3 = L2\<lparr>buffer_data :=
                     hdf5_load_rows (row_shape f) (data_rows f) (hdf_current_row L2)
                       (hdf5_batch_size P - loaded_so_far)\<rparr>;
             L4 = L3\<lparr>buffer_label :=
                     hdf5_load_rows (label_width f, 1, 1) (label_rows f) (hdf_current_row L3)
                       (hdf5_batch_size P - loaded_so_far)\<rparr>
         in
         bindE (CHECK (close_ok f) CHECK_H5Fclose) (\<lambda>_.
         bindE (CHECK (shape_num (buffer_data L4) = shape_num (buffer_label L4)) CHECK_num_rows) (\<lambda>_.
         let loaded_here = shape_num (buffer_data L4);
             L5 = (if loaded_here = int (hdf5_batch_size P) then
                     L4\<lparr>hdf_current_row := hdf_current_row L4 + nat loaded_here\<rparr>
                   else
                     (let L' = L4\<lparr>hdf_current_file := hdf_current_file L4 + 1\<rparr>;
                          L'' = (if hdf_current_file L' = hdf_num_files L'
                                 then L'\<lparr>hdf_current_file := 0\<rparr> else L')
                      in L''\<lparr>hdf_current_row := 0\<rparr>))
         in
         if loaded_here > 0 then
           bindE (caffe_copy (count (buffer_data L5)) (cpu_data (buffer_data L5))
                    (cpu_data (prefetch_data L5))
                    (offset (prefetch_data L5) (int loaded_so_far))) (\<lambda>pd.
           bindE (if output_labels L5 then
                    caffe_copy (count (buffer_label L5)) (cpu_data (buffer_label L5))
                      (cpu_data (prefetch_label L5))
                      (offset (prefetch_label L5) (int loaded_so_far))
                  else Inr (cpu_data (prefetch_label L5))) (\<lambda>pl.
           Inr (loaded_so_far + nat loaded_here,
                L5\<lparr>prefetch_data := (prefetch_data L5)\<lparr>cpu_data := pd\<rparr>,
                   prefetch_label := (prefetch_label L5)\<lparr>cpu_data := pl\<rparr>\<rparr>)))
         else Inr (loaded_so_far, L5))))"

text \<open>
  The loop \<^verbatim>\<open>while (loaded_so_far < batch_size)\<close>.  Nothing bounds the number of rounds
  (a list of empty files never fills the batch), so not returning is the value \<open>None\<close>.
\<close>

partial_function (option) LoadNextHdfBatch_loop ::
  "('d, 'f) World \<Rightarrow> 'd DataParameter \<Rightarrow> nat \<Rightarrow> ('d, 'f) DataLayer \<Rightarrow>
     (failure + ('d, 'f) DataLayer) option" where
  "LoadNextHdfBatch_loop W P loaded_so_far L =
     (if loaded_so_far < hdf5_batch_size P then
        (case LoadNextHdfBatch_body W P loaded_so_far L of
           Inl e \<Rightarrow> Some (Inl e)
         | Inr (loaded_so_far', L') \<Rightarrow> LoadNextHdfBatch_loop W P loaded_so_far' L')
      else Some (Inr L))"

declare LoadNextHdfBatch_loop.simps [code]

definition LoadNextHdfBatch ::
  "('d, 'f) World \<Rightarrow> 'd DataParameter \<Rightarrow> ('d, 'f) DataLayer \<Rightarrow>
     (failure + ('d, 'f) DataLayer) option" where
  "LoadNextHdfBatch W P L = LoadNextHdfBatch_loop W P 0 L"

section \<open>Setup\<close>

text \<open>The call into the base class and the check of \<open>label_dim\<close> against the outputs.\<close>

definition SetUp_labels ::
  "('d, 'f) World \<Rightarrow> 'd DataParameter \<Rightarrow> ('d, 'f) DataLayer \<Rightarrow> failure + ('d, 'f) DataLayer" where
  "SetUp_labels W P L =
     bindE (CHECK (Layer_SetUp_ok W) FATAL_layer_setup) (\<lambda>_.
     if top_size W = 1 then
       bindE (CHECK (label_dim P = 1) CHECK_label_dim_unused) (\<lambda>_.
       Inr (L\<lparr>output_labels := False\<rparr>))
     else
       bindE (CHECK (label_dim P \<ge> 1) CHECK_label_dim_ge_1) (\<lambda>_.
       Inr (L\<lparr>output_labels := True\<rparr>)))"

text \<open>The switch \<^verbatim>\<open>// Initialize DB\<close>.\<close>

definition SetUp_init_db ::
  "('d, 'f) World \<Rightarrow> 'd DataParameter \<Rightarrow> ('d, 'f) DataLayer \<Rightarrow>
     (failure + ('d, 'f) DataLayer) option" where
  "SetUp_init_db W P L =
     (case backend P of
        LEVELDB \<Rightarrow> Some (
          bindE (CHECK (label_dim P = 1) CHECK_label_dim_backend) (\<lambda>_.
          case leveldb_Open W (source P) of
            None \<Rightarrow> Inl (Fatal CHECK_leveldb_open)
          | Some db \<Rightarrow>
              Inr (L\<lparr>iter := Some (SeekToFirst \<lparr>records = db, pos = length db\<rparr>)\<rparr>)))
      | LMDB \<Rightarrow> Some (
          bindE (CHECK (label_dim P = 1) CHECK_label_dim_backend) (\<lambda>_.
          bindE (CHECK (mdb_env_create_ok W) CHECK_mdb_env_create) (\<lambda>_.
          bindE (CHECK (mdb_env_set_mapsize_ok W) CHECK_mdb_env_set_mapsize) (\<lambda>_.
          case mdb_env_open W (source P) of
            None \<Rightarrow> Inl (Fatal CHECK_mdb_env_open)
          | Some db \<Rightarrow>
              bindE (CHECK (mdb_txn_begin_ok W) CHECK_mdb_txn_begin) (\<lambda>_.
              bindE (CHECK (mdb_open_ok W) CHECK_mdb_open) (\<lambda>_.
              bindE (CHECK (mdb_cursor_open_ok W) CHECK_mdb_cursor_open) (\<lambda>_.
              case mdb_cursor_get \<lparr>records = db, pos = length db\<rparr> MDB_FIRST of
                (cur, Some d) \<Rightarrow> Inr (L\<lparr>mdb_cursor := Some cur, mdb_value := Some d\<rparr>)
              | (cur, None) \<Rightarrow> Inl (Fatal CHECK_mdb_first))))))))
      | HDF5 \<Rightarrow>
          (let names = (case ifstream_tokens W (source P) of Some ts \<Rightarrow> ts | None \<Rightarrow> [])
           in LoadNextHdfBatch W P
                (L\<lparr>hdf_filenames := names, hdf_num_files := length names,
                   hdf_current_file := 0, hdf_current_row := 0\<rparr>)))"

text \<open>One round of the loop \<^verbatim>\<open>while (skip-- > 0)\<close>.\<close>

definition skip_one :: "'d DataParameter \<Rightarrow> ('d, 'f) DataLayer \<Rightarrow> failure + ('d, 'f) DataLayer" where
  "skip_one P L =
     (case backend P of
        LEVELDB \<Rightarrow>
          (case iter L of
             None \<Rightarrow> Inl (Undefined UB_null_pointer)
           | Some it \<Rightarrow>
               bindE (Next it) (\<lambda>it'.
               Inr (L\<lparr>iter := Some (if \<not> Valid it' then SeekToFirst it' else it')\<rparr>)))
      | LMDB \<Rightarrow>
          (case mdb_cursor L of
             None \<Rightarrow> Inl (Undefined UB_null_pointer)
           | Some cur \<Rightarrow>
               (case mdb_cursor_get cur MDB_NEXT of
                  (cur', Some d) \<Rightarrow> Inr (L\<lparr>mdb_cursor := Some cur', mdb_value := Some d\<rparr>)
                | (cur', None) \<Rightarrow>
                    (case mdb_cursor_get cur' MDB_FIRST of
                       (cur'', Some d) \<Rightarrow> Inr (L\<lparr>mdb_cursor := Some cur'', mdb_value := Some d\<rparr>)
                     | (cur'', None) \<Rightarrow> Inl (Fatal CHECK_mdb_first))))
      | HDF5 \<Rightarrow> Inl (Fatal FATAL_rand_skip_hdf5))"

primrec skip_loop ::
  "'d DataParameter \<Rightarrow> nat \<Rightarrow> ('d, 'f) DataLayer \<Rightarrow> failure + ('d, 'f) DataLayer" where
  "skip_loop P 0 L = Inr L"
| "skip_loop P (Suc skip) L = bindE (skip_one P L) (skip_loop P skip)"

text \<open>The block \<^verbatim>\<open>// Check if we would need to randomly skip a few data points\<close>.\<close>

definition SetUp_rand_skip ::
  "'d DataParameter \<Rightarrow> ('d, 'f) DataLayer \<Rightarrow> failure + ('d, 'f) DataLayer" where
  "SetUp_rand_skip P L =
     (if rand_skip P \<noteq> 0 then
        (let skip = fst (rng_call (caffe_rng L)) mod rand_skip P;
             L1 = L\<lparr>caffe_rng := snd (rng_call (caffe_rng L))\<rparr>
         in skip_loop P (unat skip) L1)
      else Inr L)"

text \<open>The block \<^verbatim>\<open>// Figure out the shape of each data point\<close>.\<close>

definition SetUp_shape ::
  "'d DataParameter \<Rightarrow> ('d, 'f) DataLayer \<Rightarrow> failure + ('d, 'f) DataLayer" where
  "SetUp_shape P L =
     bindE
       (if backend P = HDF5 then
          Inr (L\<lparr>datum_channels := shape_channels (buffer_data L),
                 datum_height := shape_height (buffer_data L),
                 datum_width := shape_width (buffer_data L)\<rparr>)
        else
          bindE (case backend P of
                   LEVELDB \<Rightarrow>
                     (case iter L of None \<Rightarrow> Inl (Undefined UB_null_pointer)
                      | Some it \<Rightarrow> iter_value it)
                 | LMDB \<Rightarrow>
                     (case mdb_value L of None \<Rightarrow> Inl (Undefined UB_null_pointer)
                      | Some d \<Rightarrow> Inr d)
                 | HDF5 \<Rightarrow> Inl (Fatal FATAL_unknown_backend)) (\<lambda>datum.
          Inr (L\<lparr>datum_channels := channels datum,
                 datum_height := height datum,
                 datum_width := width datum\<rparr>)))
       (\<lambda>L'. Inr (L'\<lparr>datum_size := datum_channels L' * datum_height L' * datum_width L'\<rparr>))"

text \<open>
  The crop checks, the prefetch blobs and the mean.  The output tensors \<^verbatim>\<open>(*top)[i]\<close>
  belong to the caller; \<open>Forward_cpu\<close> returns what is copied into them.
\<close>

definition SetUp_blobs ::
  "('d::zero, 'f) World \<Rightarrow> 'd DataParameter \<Rightarrow> ('d, 'f) DataLayer \<Rightarrow> failure + ('d, 'f) DataLayer" where
  "SetUp_blobs W P L =
     bindE (CHECK (datum_height L > crop_size P) CHECK_height_gt_crop) (\<lambda>_.
     bindE (CHECK (datum_width L > crop_size P) CHECK_width_gt_crop) (\<lambda>_.
     let L1 = (if crop_size P > 0 then
                 L\<lparr>prefetch_data :=
                     Reshape (batch_size P) (datum_channels L) (crop_size P) (crop_size P)\<rparr>
               else
                 L\<lparr>prefetch_data :=
                     Reshape (batch_size P) (datum_channels L) (datum_height L) (datum_width L)\<rparr>);
         L2 = (if output_labels L1 then
                 L1\<lparr>prefetch_label := Reshape (batch_size P) (label_channels L1) 1 1\<rparr>
               else L1)
     in
     case mean_file P of
       Some path \<Rightarrow>
         (case ReadProtoFromBinaryFile W path of
            None \<Rightarrow> Inl (Fatal FATAL_read_mean_file)
          | Some blob_proto \<Rightarrow>
              let L3 = L2\<lparr>data_mean := blob_proto\<rparr> in
              bindE (CHECK (shape_num (data_mean L3) = 1) CHECK_mean_num) (\<lambda>_.
              bindE (CHECK (shape_channels (data_mean L3) = datum_channels L3) CHECK_mean_channels) (\<lambda>_.
              bindE (CHECK (shape_height (data_mean L3) = datum_height L3) CHECK_mean_height) (\<lambda>_.
              bindE (CHECK (shape_width (data_mean L3) = datum_width L3) CHECK_mean_width) (\<lambda>_.
              Inr L3)))))
     | None \<Rightarrow>
         Inr (L2\<lparr>data_mean :=
                   Reshape 1 (datum_channels L2) (datum_height L2) (datum_width L2)\<rparr>)))"

text \<open>\<^verbatim>\<open>DataLayer::SetUp\<close> up to the start of the producer thread, and in full.\<close>

definition SetUp_until_prefetch ::
  "('d::zero, 'f) World \<Rightarrow> 'd DataParameter \<Rightarrow> ('d, 'f) DataLayer \<Rightarrow>
     (failure + ('d, 'f) DataLayer) option" where
  "SetUp_until_prefetch W P L =
     (case SetUp_labels W P L of
        Inl e \<Rightarrow> Some (Inl e)
      | Inr L1 \<Rightarrow>
          (case SetUp_init_db W P L1 of
             None \<Rightarrow> None
           | Some r \<Rightarrow>
               Some (bindE r (\<lambda>L2.
                     bindE (SetUp_rand_skip P L2) (\<lambda>L3.
                     bindE (SetUp_shape P L3) (\<lambda>L4.
                     SetUp_blobs W P L4))))))"

definition SetUp ::
  "('d::zero, 'f) World \<Rightarrow> 'd DataParameter \<Rightarrow> ('d, 'f) DataLayer \<Rightarrow>
     (failure + ('d, 'f) DataLayer) option" where
  "SetUp W P L =
     (case SetUp_until_prefetch W P L of
        None \<Rightarrow> None
      | Some r \<Rightarrow> Some (bindE r (CreatePrefetchThread W P)))"

section \<open>Vocabulary of the properties\<close>

text \<open>
  \<open>writes T R F\<close>: run on any buffer that contains the indices \<open>R\<close>, the step \<open>T\<close> succeeds,
  keeps the length, leaves \<open>F k\<close> at every index \<open>k\<close> of \<open>R\<close> and changes nothing else.
\<close>

definition writes :: "('a list \<Rightarrow> failure + 'a list) \<Rightarrow> int set \<Rightarrow> (int \<Rightarrow> 'a) \<Rightarrow> bool" where
  "writes T R F \<longleftrightarrow>
     (\<forall>xs. (\<forall>k\<in>R. 0 \<le> k \<and> k < int (length xs)) \<longrightarrow>
        (\<exists>ys. T xs = Inr ys \<and> length ys = length xs \<and>
              (\<forall>k\<in>R. ys ! nat k = F k) \<and>
              (\<forall>k. 0 \<le> k \<and> k \<notin> R \<longrightarrow> ys ! nat k = xs ! nat k)))"

text \<open>The element that the cropped copy computes from source column \<open>x\<close> of row \<open>h\<close>, channel \<open>c\<close>.\<close>

definition crop_element ::
  "('d::{minus,times}, 'f) World \<Rightarrow> 'd DataParameter \<Rightarrow> ('d, 'f) DataLayer \<Rightarrow> 8 word list \<Rightarrow>
     int \<Rightarrow> int \<Rightarrow> int \<Rightarrow> int \<Rightarrow> int \<Rightarrow> 'd" where
  "crop_element W P L dat h_off w_off c h x =
     (cast_uint8 W (dat ! nat ((c * datum_height L + h + h_off) * datum_width L + x + w_off))
      - cpu_data (data_mean L) ! nat ((c * datum_height L + h + h_off) * datum_width L + x + w_off))
     * scale P"

text \<open>
  The raw pixel of a record at a source index, decoded as the code does: the byte cast
  to \<open>Dtype\<close> when the record has byte data, the float otherwise.
\<close>

definition raw_pixel :: "('d, 'f) World \<Rightarrow> 'f Datum \<Rightarrow> int \<Rightarrow> 'd" where
  "raw_pixel W d s =
     (if data d \<noteq> [] then cast_uint8 W (data d ! nat s) else cast_float W (float_data d ! nat s))"

text \<open>
  \<open>cursor_at P L ds q\<close>: the cursor of the configured store ranges over the records \<open>ds\<close>
  and stands on record \<open>q\<close>.  \<open>same_but_cursor L L'\<close>: the two layers differ at most in
  the cursor members.
\<close>

definition cursor_at :: "'d DataParameter \<Rightarrow> ('d, 'f) DataLayer \<Rightarrow> 'f Datum list \<Rightarrow> nat \<Rightarrow> bool" where
  "cursor_at P L ds q \<longleftrightarrow>
     q < length ds \<and>
     (case backend P of
        LEVELDB \<Rightarrow> iter L = Some \<lparr>records = ds, pos = q\<rparr>
      | LMDB \<Rightarrow> mdb_cursor L = Some \<lparr>records = ds, pos = q\<rparr>
      | HDF5 \<Rightarrow> False)"

definition same_but_cursor :: "('d, 'f) DataLayer \<Rightarrow> ('d, 'f) DataLayer \<Rightarrow> bool" where
  "same_but_cursor L L' \<longleftrightarrow>
     L' = L\<lparr>iter := iter L', mdb_cursor := mdb_cursor L', mdb_value := mdb_value L'\<rparr>"



text \<open>\<open>n\<close> moves of the cursor, and \<open>n\<close> calls of \<open>Forward_cpu\<close> with the batches they hand out.\<close>

primrec advance :: "'d DataParameter \<Rightarrow> nat \<Rightarrow> ('d, 'f) DataLayer \<Rightarrow> failure + ('d, 'f) DataLayer" where
  "advance P 0 L = Inr L"
| "advance P (Suc n) L = bindE (next_iter P L) (advance P n)"

primrec consume ::
  "('d::{minus,times}, 'f) World \<Rightarrow> 'd DataParameter \<Rightarrow> nat \<Rightarrow> ('d, 'f) DataLayer \<Rightarrow>
     failure + ('d list \<times> 'd list option) list" where
  "consume W P 0 L = Inr []"
| "consume W P (Suc n) L =
     bindE (Forward_cpu W P L) (\<lambda>(batch, L').
     bindE (consume W P n L') (\<lambda>batches. Inr (batch # batches)))"

section \<open>Concrete inputs\<close>

text \<open>
  A small world over \<open>Dtype = int\<close>: a store of five records of shape 1 x 3 x 3 (record
  \<open>k\<close> holds the bytes \<open>10 k + 1 .. 10 k + 9\<close> and the label \<open>k\<close>), and a file list of two
  files with three and two rows.
\<close>

definition example_datum :: "nat \<Rightarrow> int Datum" where
  "example_datum k =
     \<lparr>channels = 1, height = 3, width = 3,
      data = map (\<lambda>j. of_nat (10 * k + j)) [1..<10], label = int k, float_data = []\<rparr>"

definition example_db :: "int Datum list" where
  "example_db = map example_datum [0..<5]"

definition example_file_a :: "int hdf_file" where
  "example_file_a =
     \<lparr>row_shape = (1, 1, 1), data_rows = [[1], [2], [3]], label_width = 1,
      label_rows = [[11], [12], [13]], close_ok = True\<rparr>"

definition example_file_b :: "int hdf_file" where
  "example_file_b =
     \<lparr>row_shape = (1, 1, 1), data_rows = [[4], [5]], label_width = 1,
      label_rows = [[14], [15]], close_ok = True\<rparr>"

definition example_world :: "(int, int) World" where
  "example_world =
     \<lparr>cast_uint8 = uint, cast_float = (\<lambda>x. x), cast_label = (\<lambda>x. x),
      new_RNG = (\<lambda>seed n. seed + of_nat n), Caffe_phase = TRAIN, top_size = 2,
      Layer_SetUp_ok = True,
      leveldb_Open = (\<lambda>path. if path = ''db'' then Some example_db else None),
      mdb_env_create_ok = True, mdb_env_set_mapsize_ok = True,
      mdb_env_open = (\<lambda>path. if path = ''db'' then Some example_db else None),
      mdb_txn_begin_ok = True, mdb_open_ok = True, mdb_cursor_open_ok = True,
      ifstream_tokens = (\<lambda>path. if path = ''list'' then Some [''a'', ''b''] else None),
      H5Fopen = (\<lambda>path. if path = ''a'' then Some example_file_a
                          else if path = ''b'' then Some example_file_b else None),
      ReadProtoFromBinaryFile = (\<lambda>path. None),
      StartInternalThread_ok = True, WaitForInternalThreadToExit_ok = True\<rparr>"

definition example_param :: "int DataParameter" where
  "example_param =
     \<lparr>source = ''db'', backend = LEVELDB, batch_size = 2, crop_size = 0, mirror = False,
      scale = 1, label_dim = 1, rand_skip = 0, mean_file = None, hdf5_batch_size = 4\<rparr>"

text \<open>A layer before \<open>SetUp\<close>: null handles and empty blobs.\<close>

definition new_layer :: "(int, int) DataLayer" where
  "new_layer =
     \<lparr>output_labels = False, iter = None, mdb_cursor = None, mdb_value = None,
      hdf_filenames = [], hdf_num_files = 0, hdf_current_file = 0, hdf_current_row = 0,
      buffer_data = empty_blob, buffer_label = empty_blob,
      datum_channels = 0, datum_height = 0, datum_width = 0, datum_size = 0,
      label_channels = 1, data_mean = empty_blob, prefetch_data = empty_blob,
      prefetch_label = empty_blob, phase = TRAIN, prefetch_rng = None,
      caffe_rng = RNG (\<lambda>n. of_nat (3 * n + 1)) 0, thread_started = False\<rparr>"

text \<open>A layer with samples of 5 x 7 and a generator that returns 1, 4, 7, ...\<close>

definition crop_layer :: "Phase \<Rightarrow> (int, int) DataLayer" where
  "crop_layer ph =
     new_layer\<lparr>datum_height := 5, datum_width := 7, phase := ph,
               prefetch_rng := Some (RNG (\<lambda>n. of_nat (3 * n + 1)) 0)\<rparr>"

text \<open>
  The layer that \<open>SetUp\<close> reaches on the five-record store with \<open>crop_size = 2\<close>, just
  before it starts the producer thread.
\<close>

definition cropped_layer :: "(int, int) DataLayer" where
  "cropped_layer =
     new_layer\<lparr>output_labels := True, iter := Some \<lparr>records = example_db, pos = 0\<rparr>,
               datum_channels := 1, datum_height := 3, datum_width := 3, datum_size := 9,
               data_mean := Reshape 1 1 3 3, prefetch_data := Reshape 2 1 2 2,
               prefetch_label := Reshape 2 1 1 1\<rparr>"

text \<open>A layer on the two-file list with prefetch blobs for a batch of four rows.\<close>

definition hdf_layer :: "(int, int) DataLayer" where
  "hdf_layer =
     new_layer\<lparr>output_labels := True, hdf_filenames := [''a'', ''b''], hdf_num_files := 2,
               prefetch_data := Reshape 4 1 1 1, prefetch_label := Reshape 4 1 1 1\<rparr>"

text \<open>
  The layer that \<open>SetUp\<close> reaches on the five-record store with \<open>crop_size = 0\<close>, with
  the cursor moved to record \<open>q\<close>.
\<close>

definition flat_layer :: "nat \<Rightarrow> (int, int) DataLayer" where
  "flat_layer q =
     new_layer\<lparr>output_labels := True, iter := Some \<lparr>records = example_db, pos = q\<rparr>,
               datum_channels := 1, datum_height := 3, datum_width := 3, datum_size := 9,
               data_mean := Reshape 1 1 3 3, prefetch_data := Reshape 2 1 3 3,
               prefetch_label := Reshape 2 1 1 1\<rparr>"

text \<open>
  The layer \<open>cropped_layer\<close> in the train phase with a pipeline generator that returns
  1, 2, 3, ...: both offsets are 0 (the window has one position) and the first record
  is mirrored.
\<close>

definition mirror_layer :: "(int, int) DataLayer" where
  "mirror_layer = cropped_layer\<lparr>prefetch_rng := Some (RNG (\<lambda>n. 1 + of_nat n) 0)\<rparr>"

text \<open>A record of shape 1 x 3 x 3 with float data only.\<close>

definition example_float_datum :: "int Datum" where
  "example_float_datum =
     \<lparr>channels = 1, height = 3, width = 3, data = [], label = 7,
      float_data = [10, 20, 30, 40, 50, 60, 70, 80, 90]\<rparr>"

section \<open>Properties\<close>

subsection \<open>Basic facts\<close>

lemma bindE_simps [simp]: "bindE (Inl e) f = Inl e" "bindE (Inr x) f = f x"
  by (simp_all add: bindE_def)

lemma PrefetchRand_Some:
  "prefetch_rng L = Some g \<Longrightarrow>
   PrefetchRand L = Inr (draws g (used g), L\<lparr>prefetch_rng := Some (RNG (draws g) (Suc (used g)))\<rparr>)"
  by (simp add: PrefetchRand_def rng_call_def)

lemma rand_mod_pos:
  assumes "0 < n" "n < 2 ^ 31"
  shows "rand_mod r n = Inr (uint r mod n)"
proof -
  have n32: "n < 2 ^ 32" using assms by simp
  have u: "uint (word_of_int n :: 32 word) = n"
    using assms n32 by (simp add: uint_word_of_int take_bit_int_eq_self)
  then have nz: "(word_of_int n :: 32 word) \<noteq> 0" using assms
    by auto
  have um: "uint (r mod (word_of_int n :: 32 word)) = uint r mod n"
    by (simp add: uint_mod u)
  have "uint r mod n < n" using assms by simp
  then have lt: "uint (r mod (word_of_int n :: 32 word)) < 2 ^ 31" using um assms by linarith
  have ge: "- (2 ^ 31) \<le> uint (r mod (word_of_int n :: 32 word))"
    by (rule order_trans [of _ 0]) simp_all
  have "sint (r mod (word_of_int n :: 32 word)) = uint (r mod (word_of_int n :: 32 word))"
    unfolding sint_uint using signed_take_bit_int_eq_self [OF ge lt] by simp
  then show ?thesis using nz um by (simp add: rand_mod_def)
qed

lemma sdiv_2_nonneg: "0 \<le> (a::int) \<Longrightarrow> a sdiv 2 = a div 2"
  by (cases "a = 0") (auto simp add: signed_divide_int_def sgn_if)

lemma crop_layer_fields:
  "datum_height (crop_layer ph) = 5" "datum_width (crop_layer ph) = 7" "phase (crop_layer ph) = ph"
  "prefetch_rng (crop_layer ph) = Some (RNG (\<lambda>n. of_nat (3 * n + 1)) 0)"
  by (simp_all add: crop_layer_def)

lemma crop_offsets_cases:
  assumes c: "0 < crop_size P"
      and h: "crop_size P < datum_height L" "datum_height L < 2 ^ 31"
      and w: "crop_size P < datum_width L" "datum_width L < 2 ^ 31"
  shows "(phase L = TRAIN \<and> prefetch_rng L = Some g \<longrightarrow>
            crop_offsets P L =
              Inr ((uint (draws g (used g)) mod (datum_height L - crop_size P),
                    uint (draws g (used g + 1)) mod (datum_width L - crop_size P)),
                   L\<lparr>prefetch_rng := Some (RNG (draws g) (used g + 2))\<rparr>))
       \<and> (phase L \<noteq> TRAIN \<longrightarrow>
            crop_offsets P L =
              Inr (((datum_height L - crop_size P) div 2, (datum_width L - crop_size P) div 2), L))
       \<and> (crop_offsets P L = Inr ((h_off, w_off), L') \<longrightarrow>
            0 \<le> h_off \<and> h_off \<le> datum_height L - crop_size P \<and>
            0 \<le> w_off \<and> w_off \<le> datum_width L - crop_size P)"
proof -
  let ?dh = "datum_height L - crop_size P" and ?dw = "datum_width L - crop_size P"
  have dh: "0 < ?dh" "?dh < 2 ^ 31" and dw: "0 < ?dw" "?dw < 2 ^ 31"
    using c h w by simp_all
  have train: "crop_offsets P L =
      Inr ((uint (draws g (used g)) mod ?dh, uint (draws g (used g + 1)) mod ?dw),
           L\<lparr>prefetch_rng := Some (RNG (draws g) (used g + 2))\<rparr>)"
    if "phase L = TRAIN" "prefetch_rng L = Some g" for g
    using that
    by (simp add: crop_offsets_def PrefetchRand_Some rand_mod_pos [OF dh] rand_mod_pos [OF dw])
  have test: "crop_offsets P L = Inr ((?dh div 2, ?dw div 2), L)" if "phase L \<noteq> TRAIN"
    using that dh dw by (simp add: crop_offsets_def sdiv_2_nonneg)
  have bounds: "0 \<le> h_off \<and> h_off \<le> ?dh \<and> 0 \<le> w_off \<and> w_off \<le> ?dw"
    if r: "crop_offsets P L = Inr ((h_off, w_off), L')"
  proof (cases "phase L = TRAIN")
    case True
    show ?thesis
    proof (cases "prefetch_rng L")
      case None
      with True r show ?thesis by (simp add: crop_offsets_def PrefetchRand_def)
    next
      case (Some g')
      from train [OF True Some] r
      have "h_off = uint (draws g' (used g')) mod ?dh" "w_off = uint (draws g' (used g' + 1)) mod ?dw"
        by simp_all
      moreover have "0 \<le> uint (draws g' (used g')) mod ?dh" "uint (draws g' (used g')) mod ?dh < ?dh"
        "0 \<le> uint (draws g' (used g' + 1)) mod ?dw" "uint (draws g' (used g' + 1)) mod ?dw < ?dw"
        using dh dw by simp_all
      ultimately show ?thesis by simp
    qed
  next
    case False
    from test [OF False] r have "h_off = ?dh div 2" "w_off = ?dw div 2" by simp_all
    moreover have "0 \<le> ?dh div 2" "?dh div 2 \<le> ?dh" "0 \<le> ?dw div 2" "?dw div 2 \<le> ?dw"
      using dh dw by linarith+
    ultimately show ?thesis by simp
  qed
  show ?thesis using train test bounds by blast
qed

lemma bindE_eq_Inr: "bindE m f = Inr y \<longleftrightarrow> (\<exists>x. m = Inr x \<and> f x = Inr y)"
  by (cases m) simp_all

subsection \<open>Loops and buffers\<close>

lemma for_from_stop: "n \<le> i \<Longrightarrow> for_from i n body s = Inr s"
  by (subst for_from.simps) simp

lemma for_from_step: "i < n \<Longrightarrow> for_from i n body s = bindE (body i s) (for_from (i + 1) n body)"
  by (subst for_from.simps) (simp add: bindE_def)

lemma for_from_rule:
  assumes "I i s" "i \<le> n"
    and step: "\<And>j t. i \<le> j \<Longrightarrow> j < n \<Longrightarrow> I j t \<Longrightarrow> \<exists>t'. body j t = Inr t' \<and> I (j + 1) t'"
  shows "\<exists>s'. for_from i n body s = Inr s' \<and> I n s'"
  using assms(1,2) step
proof (induction "nat (n - i)" arbitrary: i s)
  case 0
  then have "i = n" by simp
  with 0 show ?case by (simp add: for_from_stop)
next
  case (Suc m)
  then have lt: "i < n" by simp
  from Suc.prems(3) [OF order_refl lt Suc.prems(1)]
  obtain t where t: "body i s = Inr t" "I (i + 1) t" by blast
  have "m = nat (n - (i + 1))" using Suc.hyps(2) by simp
  moreover have "i + 1 \<le> n" using lt by simp
  moreover have "\<exists>t'. body j t = Inr t' \<and> I (j + 1) t'" if "i + 1 \<le> j" "j < n" "I j t" for j t
    using Suc.prems(3) [of j t] that by simp
  ultimately obtain s' where "for_from (i + 1) n body t = Inr s'" "I n s'"
    using Suc.hyps(1) [of "i + 1" t] t(2) by blast
  then show ?case using lt t by (simp add: for_from_step)
qed

lemma load_in_range: "0 \<le> i \<Longrightarrow> i < int (length xs) \<Longrightarrow> load xs i = Inr (xs ! nat i)"
  by (simp add: load_def)

lemma store_in_range:
  "0 \<le> i \<Longrightarrow> i < int (length xs) \<Longrightarrow> store xs i v = Inr (xs[nat i := v])"
  by (simp add: store_def)

lemma writes_store:
  assumes "F i = v"
  shows "writes (\<lambda>xs. store xs i v) {i} F"
  using assms by (auto simp: writes_def store_def nat_eq_iff)

lemma writes_load_store:
  assumes "0 \<le> di" "di < int (length dat)" "di < int (length mean)"
      and "F ti = g (dat ! nat di) (mean ! nat di)"
  shows "writes (\<lambda>top. bindE (load dat di) (\<lambda>b. bindE (load mean di) (\<lambda>m. store top ti (g b m)))) {ti} F"
  using assms by (simp add: load_in_range writes_store)

lemma writes_for:
  assumes "\<And>j. i \<le> j \<Longrightarrow> j < n \<Longrightarrow> writes (body j) (R j) F"
  shows "writes (for_from i n body) (\<Union>j\<in>{i..<n}. R j) F"
proof (cases "i \<le> n")
  case False
  then have "{i..<n} = {}" by simp
  then show ?thesis using False by (simp add: writes_def for_from_stop)
next
  case True
  show ?thesis unfolding writes_def
  proof (intro allI impI)
    fix xs :: "'a list" assume rng: "\<forall>k\<in>(\<Union>j\<in>{i..<n}. R j). 0 \<le> k \<and> k < int (length xs)"
    let ?I = "\<lambda>j ys. length ys = length xs \<and> (\<forall>k\<in>(\<Union>j'\<in>{i..<j}. R j'). ys ! nat k = F k) \<and>
              (\<forall>k. 0 \<le> k \<and> k \<notin> (\<Union>j'\<in>{i..<j}. R j') \<longrightarrow> ys ! nat k = xs ! nat k)"
    have "\<exists>s'. for_from i n body xs = Inr s' \<and> ?I n s'"
    proof (rule for_from_rule [where I = ?I])
      show "?I i xs" by simp
      show "i \<le> n" by fact
      fix j t assume j: "i \<le> j" "j < n" and I: "?I j t"
      have "\<forall>k\<in>R j. 0 \<le> k \<and> k < int (length t)" using rng j I by auto
      with assms [OF j] obtain t' where t': "body j t = Inr t'" "length t' = length t"
        "\<forall>k\<in>R j. t' ! nat k = F k" "\<forall>k. 0 \<le> k \<and> k \<notin> R j \<longrightarrow> t' ! nat k = t ! nat k"
        unfolding writes_def by blast
      have split: "{i..<j + 1} = insert j {i..<j}" using j by auto
      have a: "length t' = length xs" using t' I by simp
      have b: "t' ! nat k = F k" if "k \<in> (\<Union>j'\<in>insert j {i..<j}. R j')" for k
      proof (cases "k \<in> R j")
        case True
        then show ?thesis using t'(3) by blast
      next
        case False
        with that have k: "k \<in> (\<Union>j'\<in>{i..<j}. R j')" by blast
        then have "0 \<le> k" using rng j by fastforce
        then have "t' ! nat k = t ! nat k" using t'(4) False by blast
        moreover have "t ! nat k = F k" using I k by blast
        ultimately show ?thesis by simp
      qed
      have c: "t' ! nat k = xs ! nat k" if "0 \<le> k" "k \<notin> (\<Union>j'\<in>insert j {i..<j}. R j')" for k
      proof -
        from that have "k \<notin> R j" "k \<notin> (\<Union>j'\<in>{i..<j}. R j')" by blast+
        then have "t' ! nat k = t ! nat k" "t ! nat k = xs ! nat k" using t'(4) I that(1) by blast+
        then show ?thesis by simp
      qed
      have "?I (j + 1) t'"
        unfolding split using a b c by blast
      with t' show "\<exists>t'. body j t = Inr t' \<and> ?I (j + 1) t'" by blast
    qed
    then show "\<exists>ys. for_from i n body xs = Inr ys \<and> length ys = length xs \<and>
        (\<forall>k\<in>(\<Union>j\<in>{i..<n}. R j). ys ! nat k = F k) \<and>
        (\<forall>k. 0 \<le> k \<and> k \<notin> (\<Union>j\<in>{i..<n}. R j) \<longrightarrow> ys ! nat k = xs ! nat k)" by blast
  qed
qed

lemma triple_loop_writes:
  assumes "\<And>c h w. 0 \<le> c \<Longrightarrow> c < C \<Longrightarrow> 0 \<le> h \<Longrightarrow> h < n \<Longrightarrow> 0 \<le> w \<Longrightarrow> w < n \<Longrightarrow>
             writes (body c h w) {ti c h w} F"
  shows "writes (for_from 0 C (\<lambda>c. for_from 0 n (\<lambda>h. for_from 0 n (body c h))))
           (\<Union>c\<in>{0..<C}. \<Union>h\<in>{0..<n}. \<Union>w\<in>{0..<n}. {ti c h w}) F"
proof -
  have row: "writes (for_from 0 n (body c h)) (\<Union>w\<in>{0..<n}. {ti c h w}) F"
    if "0 \<le> c" "c < C" "0 \<le> h" "h < n" for c h
    by (rule writes_for [where R = "\<lambda>w. {ti c h w}"]) (rule assms [OF that])
  have chan: "writes (for_from 0 n (\<lambda>h. for_from 0 n (body c h)))
      (\<Union>h\<in>{0..<n}. \<Union>w\<in>{0..<n}. {ti c h w}) F"
    if "0 \<le> c" "c < C" for c
    by (rule writes_for [where R = "\<lambda>h. \<Union>w\<in>{0..<n}. {ti c h w}"]) (rule row [OF that])
  show ?thesis
    by (rule writes_for [where R = "\<lambda>c. \<Union>h\<in>{0..<n}. \<Union>w\<in>{0..<n}. {ti c h w}"]) (rule chan)
qed

subsection \<open>Index arithmetic\<close>

lemma decode_index:
  fixes a n h w :: int
  assumes "0 \<le> h" "h < n" "0 \<le> w" "w < n"
  shows "((a * n + h) * n + w) mod n = w" "((a * n + h) * n + w) div n = a * n + h"
        "(a * n + h) mod n = h" "(a * n + h) div n = a"
  using assms by simp_all

lemma block_bounds:
  fixes a n h w :: int
  assumes "0 \<le> h" "h < n" "0 \<le> w" "w < n"
  shows "a * (n * n) \<le> (a * n + h) * n + w" "(a * n + h) * n + w < (a + 1) * (n * n)"
proof -
  have "0 \<le> h * n" using assms by simp
  then show "a * (n * n) \<le> (a * n + h) * n + w" using assms by (simp add: algebra_simps)
  have "h + 1 \<le> n" using assms by simp
  then have "(h + 1) * n \<le> n * n" using assms by (intro mult_right_mono) simp_all
  then have "h * n + w < n * n" using assms by (simp add: algebra_simps)
  then show "(a * n + h) * n + w < (a + 1) * (n * n)" by (simp add: algebra_simps)
qed

lemma src_bounds:
  fixes c C H W y x :: int
  assumes "0 \<le> c" "c < C" "0 \<le> y" "y < H" "0 \<le> x" "x < W"
  shows "0 \<le> (c * H + y) * W + x" "(c * H + y) * W + x < C * H * W"
proof -
  from block_bounds(1) [of y H x] show "0 \<le> (c * H + y) * W + x" using assms by simp
  have "(c * H + y) + 1 \<le> C * H"
  proof -
    have "(c + 1) * H \<le> C * H" using assms by (intro mult_right_mono) simp_all
    then show ?thesis using assms by (simp add: algebra_simps)
  qed
  then have "((c * H + y) + 1) * W \<le> C * H * W" using assms by (intro mult_right_mono) simp_all
  then show "(c * H + y) * W + x < C * H * W" using assms by (simp add: algebra_simps)
qed

lemma in_block:
  fixes C n item c h w :: int
  assumes "0 \<le> item" "0 \<le> c" "c < C" "0 \<le> h" "h < n" "0 \<le> w" "w < n"
  shows "item * (C * (n * n)) \<le> ((item * C + c) * n + h) * n + w"
    and "((item * C + c) * n + h) * n + w < (item + 1) * (C * (n * n))"
    and "0 \<le> ((item * C + c) * n + h) * n + w"
proof -
  note b = block_bounds [OF assms(4-7), of "item * C + c"]
  have nn: "0 \<le> n * n" by simp
  have "item * C * (n * n) \<le> (item * C + c) * (n * n)"
    using assms(2) nn by (intro mult_right_mono) simp_all
  with b(1) show 1: "item * (C * (n * n)) \<le> ((item * C + c) * n + h) * n + w"
    by (simp add: mult.assoc)
  have "(item * C + c + 1) * (n * n) \<le> (item * C + C) * (n * n)"
    using assms(3) nn by (intro mult_right_mono) simp_all
  with b(2) show "((item * C + c) * n + h) * n + w < (item + 1) * (C * (n * n))"
    by (simp add: algebra_simps)
  have "0 \<le> item * (C * (n * n))" using assms by simp
  with 1 show "0 \<le> ((item * C + c) * n + h) * n + w" by simp
qed

lemma mirrored_index_set:
  fixes n base :: int
  shows "(\<Union>w\<in>{0..<n}. {base + (n - 1 - w)}) = (\<Union>w\<in>{0..<n}. {base + w})"
proof (intro set_eqI iffI)
  fix k assume "k \<in> (\<Union>w\<in>{0..<n}. {base + (n - 1 - w)})"
  then obtain w where "0 \<le> w" "w < n" "k = base + (n - 1 - w)" by auto
  then have "n - 1 - w \<in> {0..<n}" "k = base + (n - 1 - w)" by auto
  then show "k \<in> (\<Union>w\<in>{0..<n}. {base + w})" by blast
next
  fix k assume "k \<in> (\<Union>w\<in>{0..<n}. {base + w})"
  then obtain w where "0 \<le> w" "w < n" "k = base + w" by auto
  then have "n - 1 - w \<in> {0..<n}" "k = base + (n - 1 - (n - 1 - w))" by auto
  then show "k \<in> (\<Union>w\<in>{0..<n}. {base + (n - 1 - w)})" by blast
qed

lemma block_result:
  fixes C n item :: int
  assumes wr: "writes T (\<Union>c\<in>{0..<C}. \<Union>h\<in>{0..<n}. \<Union>w\<in>{0..<n}. {((item * C + c) * n + h) * n + w}) F"
      and item: "0 \<le> item" and room: "(item + 1) * (C * (n * n)) \<le> int (length xs)"
      and dec: "\<And>c h w. 0 \<le> c \<Longrightarrow> c < C \<Longrightarrow> 0 \<le> h \<Longrightarrow> h < n \<Longrightarrow> 0 \<le> w \<Longrightarrow> w < n \<Longrightarrow>
                  F (((item * C + c) * n + h) * n + w) = G c h w"
  shows "\<exists>ys. T xs = Inr ys \<and> length ys = length xs \<and>
     (\<forall>c h w. 0 \<le> c \<and> c < C \<and> 0 \<le> h \<and> h < n \<and> 0 \<le> w \<and> w < n \<longrightarrow>
        ys ! nat (((item * C + c) * n + h) * n + w) = G c h w) \<and>
     (\<forall>k. 0 \<le> k \<and> (k < item * (C * (n * n)) \<or> (item + 1) * (C * (n * n)) \<le> k) \<longrightarrow>
        ys ! nat k = xs ! nat k)"
proof -
  define R where "R = (\<Union>c\<in>{0..<C}. \<Union>h\<in>{0..<n}. \<Union>w\<in>{0..<n}. {((item * C + c) * n + h) * n + w})"
  have memI: "((item * C + c) * n + h) * n + w \<in> R"
    if "0 \<le> c" "c < C" "0 \<le> h" "h < n" "0 \<le> w" "w < n" for c h w
  proof -
    from that have "c \<in> {0..<C}" "h \<in> {0..<n}" "w \<in> {0..<n}" by simp_all
    then show ?thesis unfolding R_def by blast
  qed
  have blk: "item * (C * (n * n)) \<le> k \<and> k < (item + 1) * (C * (n * n)) \<and> 0 \<le> k" if "k \<in> R" for k
  proof -
    from that obtain c h w where m: "c \<in> {0..<C}" "h \<in> {0..<n}" "w \<in> {0..<n}"
      and k: "k = ((item * C + c) * n + h) * n + w" unfolding R_def by blast
    from m have c: "0 \<le> c" "c < C" and h: "0 \<le> h" "h < n" and w: "0 \<le> w" "w < n" by simp_all
    from in_block [OF item c h w] show ?thesis unfolding k by blast
  qed
  have rng: "\<forall>k\<in>R. 0 \<le> k \<and> k < int (length xs)"
  proof
    fix k assume "k \<in> R"
    from blk [OF this] room show "0 \<le> k \<and> k < int (length xs)" by linarith
  qed
  from wr have "writes T R F" unfolding R_def .
  with rng obtain ys where ys: "T xs = Inr ys" "length ys = length xs"
    "\<forall>k\<in>R. ys ! nat k = F k" "\<forall>k. 0 \<le> k \<and> k \<notin> R \<longrightarrow> ys ! nat k = xs ! nat k"
    unfolding writes_def by blast
  have a: "ys ! nat (((item * C + c) * n + h) * n + w) = G c h w"
    if "0 \<le> c \<and> c < C \<and> 0 \<le> h \<and> h < n \<and> 0 \<le> w \<and> w < n" for c h w
  proof -
    from that have t: "0 \<le> c" "c < C" "0 \<le> h" "h < n" "0 \<le> w" "w < n" by simp_all
    from memI [OF t] ys(3) have "ys ! nat (((item * C + c) * n + h) * n + w) = F (((item * C + c) * n + h) * n + w)"
      by blast
    with dec [OF t] show ?thesis by simp
  qed
  have b: "ys ! nat k = xs ! nat k"
    if "0 \<le> k \<and> (k < item * (C * (n * n)) \<or> (item + 1) * (C * (n * n)) \<le> k)" for k
  proof -
    have "k \<notin> R"
    proof
      assume "k \<in> R"
      from blk [OF this] that show False by linarith
    qed
    with ys(4) that show ?thesis by blast
  qed
  from ys(1,2) a b show ?thesis by blast
qed

subsection \<open>The copies of one item\<close>

lemma crop_inner_writes:
  fixes W :: "('d::{minus,times}, 'f) World"
  assumes off: "0 \<le> h_off" "h_off + crop_size P \<le> datum_height L"
               "0 \<le> w_off" "w_off + crop_size P \<le> datum_width L"
      and len: "int (length dat) = datum_channels L * datum_height L * datum_width L"
               "int (length (cpu_data (data_mean L))) = datum_channels L * datum_height L * datum_width L"
      and c: "0 \<le> c" "c < datum_channels L" and h: "0 \<le> h" "h < crop_size P"
      and w: "0 \<le> w" "w < crop_size P"
      and F: "F ti = crop_element W P L dat h_off w_off c h w"
  shows "writes (\<lambda>top_data.
           bindE (load dat ((c * datum_height L + h + h_off) * datum_width L + w + w_off)) (\<lambda>datum_element.
           bindE (load (cpu_data (data_mean L)) ((c * datum_height L + h + h_off) * datum_width L + w + w_off)) (\<lambda>m.
           store top_data ti ((cast_uint8 W datum_element - m) * scale P)))) {ti} F"
proof (rule writes_load_store)
  let ?di = "(c * datum_height L + h + h_off) * datum_width L + w + w_off"
  have "0 \<le> h + h_off" "h + h_off < datum_height L" "0 \<le> w + w_off" "w + w_off < datum_width L"
    using off h w by simp_all
  from src_bounds [OF c this]
  have b: "0 \<le> ?di" "?di < datum_channels L * datum_height L * datum_width L"
    by (simp_all add: add.assoc)
  show "0 \<le> ?di" by (rule b)
  show "?di < int (length dat)" using b len by simp
  show "?di < int (length (cpu_data (data_mean L)))" using b len by simp
  show "F ti = (cast_uint8 W (dat ! nat ?di) - cpu_data (data_mean L) ! nat ?di) * scale P"
    using F by (simp add: crop_element_def)
qed

lemma copy_normal_writes:
  fixes W :: "('d::{minus,times}, 'f) World"
  assumes off: "0 \<le> h_off" "h_off + crop_size P \<le> datum_height L"
               "0 \<le> w_off" "w_off + crop_size P \<le> datum_width L"
      and len: "int (length dat) = datum_channels L * datum_height L * datum_width L"
               "int (length (cpu_data (data_mean L))) = datum_channels L * datum_height L * datum_width L"
  shows "writes (copy_normal W P L dat item_id h_off w_off)
           (\<Union>c\<in>{0..<datum_channels L}. \<Union>h\<in>{0..<crop_size P}. \<Union>w\<in>{0..<crop_size P}.
               {((item_id * datum_channels L + c) * crop_size P + h) * crop_size P + w})
           (\<lambda>k. crop_element W P L dat h_off w_off
                   (k div crop_size P div crop_size P - item_id * datum_channels L)
                   (k div crop_size P mod crop_size P) (k mod crop_size P))"
  unfolding copy_normal_def Let_def
proof (rule triple_loop_writes)
  fix c h w :: int
  assume c: "0 \<le> c" "c < datum_channels L" and h: "0 \<le> h" "h < crop_size P"
    and w: "0 \<le> w" "w < crop_size P"
  show "writes (\<lambda>top_data.
           bindE (load dat ((c * datum_height L + h + h_off) * datum_width L + w + w_off)) (\<lambda>datum_element.
           bindE (load (cpu_data (data_mean L)) ((c * datum_height L + h + h_off) * datum_width L + w + w_off)) (\<lambda>m.
           store top_data (((item_id * datum_channels L + c) * crop_size P + h) * crop_size P + w)
             ((cast_uint8 W datum_element - m) * scale P))))
         {((item_id * datum_channels L + c) * crop_size P + h) * crop_size P + w}
         (\<lambda>k. crop_element W P L dat h_off w_off
                   (k div crop_size P div crop_size P - item_id * datum_channels L)
                   (k div crop_size P mod crop_size P) (k mod crop_size P))"
    by (rule crop_inner_writes [OF off len c h w]) (use h w in \<open>simp add: decode_index [OF h w]\<close>)
qed

lemma copy_mirrored_writes:
  fixes W :: "('d::{minus,times}, 'f) World"
  assumes off: "0 \<le> h_off" "h_off + crop_size P \<le> datum_height L"
               "0 \<le> w_off" "w_off + crop_size P \<le> datum_width L"
      and len: "int (length dat) = datum_channels L * datum_height L * datum_width L"
               "int (length (cpu_data (data_mean L))) = datum_channels L * datum_height L * datum_width L"
  shows "writes (copy_mirrored W P L dat item_id h_off w_off)
           (\<Union>c\<in>{0..<datum_channels L}. \<Union>h\<in>{0..<crop_size P}. \<Union>w\<in>{0..<crop_size P}.
               {((item_id * datum_channels L + c) * crop_size P + h) * crop_size P + (crop_size P - 1 - w)})
           (\<lambda>k. crop_element W P L dat h_off w_off
                   (k div crop_size P div crop_size P - item_id * datum_channels L)
                   (k div crop_size P mod crop_size P) (crop_size P - 1 - k mod crop_size P))"
  unfolding copy_mirrored_def Let_def
proof (rule triple_loop_writes)
  fix c h w :: int
  assume c: "0 \<le> c" "c < datum_channels L" and h: "0 \<le> h" "h < crop_size P"
    and w: "0 \<le> w" "w < crop_size P"
  have w': "0 \<le> crop_size P - 1 - w" "crop_size P - 1 - w < crop_size P" using w by simp_all
  show "writes (\<lambda>top_data.
           bindE (load dat ((c * datum_height L + h + h_off) * datum_width L + w + w_off)) (\<lambda>datum_element.
           bindE (load (cpu_data (data_mean L)) ((c * datum_height L + h + h_off) * datum_width L + w + w_off)) (\<lambda>m.
           store top_data (((item_id * datum_channels L + c) * crop_size P + h) * crop_size P + (crop_size P - 1 - w))
             ((cast_uint8 W datum_element - m) * scale P))))
         {((item_id * datum_channels L + c) * crop_size P + h) * crop_size P + (crop_size P - 1 - w)}
         (\<lambda>k. crop_element W P L dat h_off w_off
                   (k div crop_size P div crop_size P - item_id * datum_channels L)
                   (k div crop_size P mod crop_size P) (crop_size P - 1 - k mod crop_size P))"
    by (rule crop_inner_writes [OF off len c h w]) (use h w' in \<open>simp add: decode_index [OF h w']\<close>)
qed

lemma copy_normal_result:
  fixes W :: "('d::{minus,times}, 'f) World"
  assumes off: "0 \<le> h_off" "h_off + crop_size P \<le> datum_height L"
               "0 \<le> w_off" "w_off + crop_size P \<le> datum_width L"
      and len: "int (length dat) = datum_channels L * datum_height L * datum_width L"
               "int (length (cpu_data (data_mean L))) = datum_channels L * datum_height L * datum_width L"
      and item: "0 \<le> item_id"
      and room: "(item_id + 1) * (datum_channels L * (crop_size P * crop_size P)) \<le> int (length xs)"
  shows "\<exists>ys. copy_normal W P L dat item_id h_off w_off xs = Inr ys \<and> length ys = length xs \<and>
     (\<forall>c h w. 0 \<le> c \<and> c < datum_channels L \<and> 0 \<le> h \<and> h < crop_size P \<and> 0 \<le> w \<and> w < crop_size P \<longrightarrow>
        ys ! nat (((item_id * datum_channels L + c) * crop_size P + h) * crop_size P + w)
          = crop_element W P L dat h_off w_off c h w) \<and>
     (\<forall>k. 0 \<le> k \<and> (k < item_id * (datum_channels L * (crop_size P * crop_size P))
                  \<or> (item_id + 1) * (datum_channels L * (crop_size P * crop_size P)) \<le> k) \<longrightarrow>
        ys ! nat k = xs ! nat k)"
proof (rule block_result [OF copy_normal_writes [OF off len] item room])
  fix c h w :: int
  assume "0 \<le> c" "c < datum_channels L" and h: "0 \<le> h" "h < crop_size P"
    and w: "0 \<le> w" "w < crop_size P"
  show "crop_element W P L dat h_off w_off
          ((((item_id * datum_channels L + c) * crop_size P + h) * crop_size P + w) div crop_size P div crop_size P
             - item_id * datum_channels L)
          ((((item_id * datum_channels L + c) * crop_size P + h) * crop_size P + w) div crop_size P mod crop_size P)
          ((((item_id * datum_channels L + c) * crop_size P + h) * crop_size P + w) mod crop_size P)
        = crop_element W P L dat h_off w_off c h w"
    using h w by (simp add: decode_index [OF h w])
qed

lemma copy_mirrored_result:
  fixes W :: "('d::{minus,times}, 'f) World"
  assumes off: "0 \<le> h_off" "h_off + crop_size P \<le> datum_height L"
               "0 \<le> w_off" "w_off + crop_size P \<le> datum_width L"
      and len: "int (length dat) = datum_channels L * datum_height L * datum_width L"
               "int (length (cpu_data (data_mean L))) = datum_channels L * datum_height L * datum_width L"
      and item: "0 \<le> item_id"
      and room: "(item_id + 1) * (datum_channels L * (crop_size P * crop_size P)) \<le> int (length xs)"
  shows "\<exists>ys. copy_mirrored W P L dat item_id h_off w_off xs = Inr ys \<and> length ys = length xs \<and>
     (\<forall>c h w. 0 \<le> c \<and> c < datum_channels L \<and> 0 \<le> h \<and> h < crop_size P \<and> 0 \<le> w \<and> w < crop_size P \<longrightarrow>
        ys ! nat (((item_id * datum_channels L + c) * crop_size P + h) * crop_size P + w)
          = crop_element W P L dat h_off w_off c h (crop_size P - 1 - w)) \<and>
     (\<forall>k. 0 \<le> k \<and> (k < item_id * (datum_channels L * (crop_size P * crop_size P))
                  \<or> (item_id + 1) * (datum_channels L * (crop_size P * crop_size P)) \<le> k) \<longrightarrow>
        ys ! nat k = xs ! nat k)"
proof (rule block_result [OF copy_mirrored_writes [OF off len, unfolded mirrored_index_set] item room])
  fix c h w :: int
  assume "0 \<le> c" "c < datum_channels L" and h: "0 \<le> h" "h < crop_size P"
    and w: "0 \<le> w" "w < crop_size P"
  show "crop_element W P L dat h_off w_off
          ((((item_id * datum_channels L + c) * crop_size P + h) * crop_size P + w) div crop_size P div crop_size P
             - item_id * datum_channels L)
          ((((item_id * datum_channels L + c) * crop_size P + h) * crop_size P + w) div crop_size P mod crop_size P)
          (crop_size P - 1 - (((item_id * datum_channels L + c) * crop_size P + h) * crop_size P + w) mod crop_size P)
        = crop_element W P L dat h_off w_off c h (crop_size P - 1 - w)"
    using h w by (simp add: decode_index [OF h w])
qed

lemma flat_loop_result:
  fixes size item :: int and g :: "'b \<Rightarrow> 'a \<Rightarrow> 'a"
  assumes src: "size \<le> int (length src)" and mean: "size \<le> int (length mean)"
      and item: "0 \<le> item" and room: "(item + 1) * size \<le> int (length xs)"
  shows "\<exists>ys. for_from 0 size (\<lambda>j top_data.
                 bindE (load src j) (\<lambda>x. bindE (load mean j) (\<lambda>m.
                 store top_data (item * size + j) (g x m)))) xs = Inr ys \<and>
              length ys = length xs \<and>
              (\<forall>j. 0 \<le> j \<and> j < size \<longrightarrow> ys ! nat (item * size + j) = g (src ! nat j) (mean ! nat j)) \<and>
              (\<forall>k. 0 \<le> k \<and> (k < item * size \<or> (item + 1) * size \<le> k) \<longrightarrow> ys ! nat k = xs ! nat k)"
proof -
  define R where "R = (\<Union>j\<in>{0..<size}. {item * size + j})"
  define F where "F = (\<lambda>k. g (src ! nat (k - item * size)) (mean ! nat (k - item * size)))"
  define T where "T = for_from 0 size (\<lambda>j top_data.
                 bindE (load src j) (\<lambda>x. bindE (load mean j) (\<lambda>m.
                 store top_data (item * size + j) (g x m))))"
  have "writes T (\<Union>j\<in>{0..<size}. {item * size + j}) F"
    unfolding T_def
  proof (rule writes_for)
    fix j :: int assume j: "0 \<le> j" "j < size"
    show "writes (\<lambda>top_data. bindE (load src j) (\<lambda>x. bindE (load mean j) (\<lambda>m.
                 store top_data (item * size + j) (g x m)))) {item * size + j} F"
      by (rule writes_load_store) (use j src mean in \<open>simp_all add: F_def\<close>)
  qed
  then have wr: "writes T R F" unfolding R_def .
  have mem: "k \<in> R \<longleftrightarrow> item * size \<le> k \<and> k < (item + 1) * size" for k
  proof
    assume "k \<in> R"
    then obtain j where "j \<in> {0..<size}" "k = item * size + j" unfolding R_def by blast
    then show "item * size \<le> k \<and> k < (item + 1) * size" by (simp add: algebra_simps)
  next
    assume a: "item * size \<le> k \<and> k < (item + 1) * size"
    then have "k - item * size \<in> {0..<size}" by (simp add: algebra_simps)
    moreover have "k = item * size + (k - item * size)" by simp
    ultimately show "k \<in> R" unfolding R_def by blast
  qed
  have rng: "\<forall>k\<in>R. 0 \<le> k \<and> k < int (length xs)"
  proof
    fix k assume k: "k \<in> R"
    then have b: "item * size \<le> k" "k < (item + 1) * size" using mem by simp_all
    from b have "0 < size" by (simp add: algebra_simps)
    then have "0 \<le> item * size" using item by simp
    with b room show "0 \<le> k \<and> k < int (length xs)" by linarith
  qed
  with wr obtain ys where ys: "T xs = Inr ys" "length ys = length xs"
    "\<forall>k\<in>R. ys ! nat k = F k" "\<forall>k. 0 \<le> k \<and> k \<notin> R \<longrightarrow> ys ! nat k = xs ! nat k"
    unfolding writes_def by blast
  have a: "ys ! nat (item * size + j) = g (src ! nat j) (mean ! nat j)" if "0 \<le> j \<and> j < size" for j
  proof -
    from that have "item * size + j \<in> R" using mem by (simp add: algebra_simps)
    with ys(3) have "ys ! nat (item * size + j) = F (item * size + j)" by blast
    then show ?thesis by (simp add: F_def)
  qed
  have b: "ys ! nat k = xs ! nat k" if "0 \<le> k \<and> (k < item * size \<or> (item + 1) * size \<le> k)" for k
  proof -
    have "k \<notin> R"
    proof
      assume "k \<in> R"
      then have "item * size \<le> k" "k < (item + 1) * size" using mem by simp_all
      with that show False by linarith
    qed
    with ys(4) that show ?thesis by blast
  qed
  from ys(1,2) a b show ?thesis unfolding T_def by blast
qed

lemma copy_bytes_result:
  fixes W :: "('d::{minus,times}, 'f) World"
  assumes "datum_size L \<le> int (length dat)" "datum_size L \<le> int (length (cpu_data (data_mean L)))"
      and "0 \<le> item_id" "(item_id + 1) * datum_size L \<le> int (length xs)"
  shows "\<exists>ys. copy_bytes W P L dat item_id xs = Inr ys \<and> length ys = length xs \<and>
     (\<forall>j. 0 \<le> j \<and> j < datum_size L \<longrightarrow>
        ys ! nat (item_id * datum_size L + j)
          = (cast_uint8 W (dat ! nat j) - cpu_data (data_mean L) ! nat j) * scale P) \<and>
     (\<forall>k. 0 \<le> k \<and> (k < item_id * datum_size L \<or> (item_id + 1) * datum_size L \<le> k) \<longrightarrow>
        ys ! nat k = xs ! nat k)"
  unfolding copy_bytes_def
  by (rule flat_loop_result [where g = "\<lambda>x m. (cast_uint8 W x - m) * scale P", OF assms])

lemma copy_floats_result:
  fixes W :: "('d::{minus,times}, 'f) World"
  assumes "datum_size L \<le> int (length fdat)" "datum_size L \<le> int (length (cpu_data (data_mean L)))"
      and "0 \<le> item_id" "(item_id + 1) * datum_size L \<le> int (length xs)"
  shows "\<exists>ys. copy_floats W P L fdat item_id xs = Inr ys \<and> length ys = length xs \<and>
     (\<forall>j. 0 \<le> j \<and> j < datum_size L \<longrightarrow>
        ys ! nat (item_id * datum_size L + j)
          = (cast_float W (fdat ! nat j) - cpu_data (data_mean L) ! nat j) * scale P) \<and>
     (\<forall>k. 0 \<le> k \<and> (k < item_id * datum_size L \<or> (item_id + 1) * datum_size L \<le> k) \<longrightarrow>
        ys ! nat k = xs ! nat k)"
  unfolding copy_floats_def
  by (rule flat_loop_result [where g = "\<lambda>x m. (cast_float W x - m) * scale P", OF assms])

lemma fill_item_crop:
  fixes W :: "('d::{minus,times}, 'f) World"
  assumes crop: "crop_size P \<noteq> 0" and dat: "data d \<noteq> []"
      and co: "crop_offsets P L = Inr ((h_off, w_off), L1)"
      and md: "mirror_draw P L1 = Inr (mirrored, L2)"
      and off: "0 \<le> h_off" "h_off + crop_size P \<le> datum_height L"
               "0 \<le> w_off" "w_off + crop_size P \<le> datum_width L"
      and len: "int (length (data d)) = datum_channels L * datum_height L * datum_width L"
               "int (length (cpu_data (data_mean L))) = datum_channels L * datum_height L * datum_width L"
      and item: "0 \<le> item_id"
      and room: "(item_id + 1) * (datum_channels L * (crop_size P * crop_size P)) \<le> int (length td)"
      and lab: "output_labels L \<longrightarrow> item_id < int (length lbl)"
  shows "\<exists>td'. fill_item W P d item_id (L, td, lbl)
              = Inr (L2, td', if output_labels L then lbl[nat item_id := cast_label W (label d)] else lbl) \<and>
           length td' = length td \<and>
           (\<forall>c h w. 0 \<le> c \<and> c < datum_channels L \<and> 0 \<le> h \<and> h < crop_size P \<and> 0 \<le> w \<and> w < crop_size P \<longrightarrow>
              td' ! nat (((item_id * datum_channels L + c) * crop_size P + h) * crop_size P + w)
                = crop_element W P L (data d) h_off w_off c h (if mirrored then crop_size P - 1 - w else w)) \<and>
           (\<forall>k. 0 \<le> k \<and> (k < item_id * (datum_channels L * (crop_size P * crop_size P))
                  \<or> (item_id + 1) * (datum_channels L * (crop_size P * crop_size P)) \<le> k) \<longrightarrow>
              td' ! nat k = td ! nat k)"
proof -
  have pre: "fill_item W P d item_id (L, td, lbl) =
      bindE ((if mirrored then copy_mirrored else copy_normal) W P L (data d) item_id h_off w_off td)
        (\<lambda>td'. if output_labels L then
                  bindE (store lbl item_id (cast_label W (label d))) (\<lambda>lbl'. Inr (L2, td', lbl'))
                else Inr (L2, td', lbl))"
    using crop dat by (simp add: fill_item_def CHECK_def co md bindE_def split: sum.splits)
  show ?thesis
  proof (cases mirrored)
    case True
    from copy_mirrored_result [OF off len item room, of W]
    obtain ys where ys: "copy_mirrored W P L (data d) item_id h_off w_off td = Inr ys"
      and rest: "length ys = length td \<and>
     (\<forall>c h w. 0 \<le> c \<and> c < datum_channels L \<and> 0 \<le> h \<and> h < crop_size P \<and> 0 \<le> w \<and> w < crop_size P \<longrightarrow>
        ys ! nat (((item_id * datum_channels L + c) * crop_size P + h) * crop_size P + w)
          = crop_element W P L (data d) h_off w_off c h (crop_size P - 1 - w)) \<and>
     (\<forall>k. 0 \<le> k \<and> (k < item_id * (datum_channels L * (crop_size P * crop_size P))
                  \<or> (item_id + 1) * (datum_channels L * (crop_size P * crop_size P)) \<le> k) \<longrightarrow>
        ys ! nat k = td ! nat k)"
      by (elim exE conjE) (rule that, assumption, intro conjI; assumption)
    have "fill_item W P d item_id (L, td, lbl)
        = Inr (L2, ys, if output_labels L then lbl[nat item_id := cast_label W (label d)] else lbl)"
      unfolding pre using True ys lab item by (simp add: store_in_range)
    with rest True show ?thesis by simp
  next
    case False
    from copy_normal_result [OF off len item room, of W]
    obtain ys where ys: "copy_normal W P L (data d) item_id h_off w_off td = Inr ys"
      and rest: "length ys = length td \<and>
     (\<forall>c h w. 0 \<le> c \<and> c < datum_channels L \<and> 0 \<le> h \<and> h < crop_size P \<and> 0 \<le> w \<and> w < crop_size P \<longrightarrow>
        ys ! nat (((item_id * datum_channels L + c) * crop_size P + h) * crop_size P + w)
          = crop_element W P L (data d) h_off w_off c h w) \<and>
     (\<forall>k. 0 \<le> k \<and> (k < item_id * (datum_channels L * (crop_size P * crop_size P))
                  \<or> (item_id + 1) * (datum_channels L * (crop_size P * crop_size P)) \<le> k) \<longrightarrow>
        ys ! nat k = td ! nat k)"
      by (elim exE conjE) (rule that, assumption, intro conjI; assumption)
    have "fill_item W P d item_id (L, td, lbl)
        = Inr (L2, ys, if output_labels L then lbl[nat item_id := cast_label W (label d)] else lbl)"
      unfolding pre using False ys lab item by (simp add: store_in_range)
    with rest False show ?thesis by simp
  qed
qed

lemma fill_item_flat:
  fixes W :: "('d::{minus,times}, 'f) World"
  assumes crop: "crop_size P = 0"
      and wf: "data d \<noteq> [] \<longrightarrow> datum_size L \<le> int (length (data d))"
              "data d = [] \<longrightarrow> datum_size L \<le> int (length (float_data d))"
      and mean: "datum_size L \<le> int (length (cpu_data (data_mean L)))"
      and item: "0 \<le> item_id"
      and room: "(item_id + 1) * datum_size L \<le> int (length td)"
      and lab: "output_labels L \<longrightarrow> item_id < int (length lbl)"
  shows "\<exists>td'. fill_item W P d item_id (L, td, lbl)
              = Inr (L, td', if output_labels L then lbl[nat item_id := cast_label W (label d)] else lbl) \<and>
           length td' = length td \<and>
           (\<forall>j. 0 \<le> j \<and> j < datum_size L \<longrightarrow>
              td' ! nat (item_id * datum_size L + j)
                = (raw_pixel W d j - cpu_data (data_mean L) ! nat j) * scale P) \<and>
           (\<forall>k. 0 \<le> k \<and> (k < item_id * datum_size L \<or> (item_id + 1) * datum_size L \<le> k) \<longrightarrow>
              td' ! nat k = td ! nat k)"
proof (cases "data d \<noteq> []")
  case True
  with wf have s: "datum_size L \<le> int (length (data d))" by simp
  from copy_bytes_result [OF s mean item room, of W P]
  obtain ys where ys: "copy_bytes W P L (data d) item_id td = Inr ys"
    and rest: "length ys = length td \<and>
     (\<forall>j. 0 \<le> j \<and> j < datum_size L \<longrightarrow>
        ys ! nat (item_id * datum_size L + j)
          = (cast_uint8 W (data d ! nat j) - cpu_data (data_mean L) ! nat j) * scale P) \<and>
     (\<forall>k. 0 \<le> k \<and> (k < item_id * datum_size L \<or> (item_id + 1) * datum_size L \<le> k) \<longrightarrow>
        ys ! nat k = td ! nat k)"
    by (elim exE conjE) (rule that, assumption, intro conjI; assumption)
  have "fill_item W P d item_id (L, td, lbl)
      = Inr (L, ys, if output_labels L then lbl[nat item_id := cast_label W (label d)] else lbl)"
    using crop True ys lab item by (simp add: fill_item_def store_in_range)
  with rest True show ?thesis by (simp add: raw_pixel_def)
next
  case False
  with wf have s: "datum_size L \<le> int (length (float_data d))" by simp
  from copy_floats_result [OF s mean item room, of W P]
  obtain ys where ys: "copy_floats W P L (float_data d) item_id td = Inr ys"
    and rest: "length ys = length td \<and>
     (\<forall>j. 0 \<le> j \<and> j < datum_size L \<longrightarrow>
        ys ! nat (item_id * datum_size L + j)
          = (cast_float W (float_data d ! nat j) - cpu_data (data_mean L) ! nat j) * scale P) \<and>
     (\<forall>k. 0 \<le> k \<and> (k < item_id * datum_size L \<or> (item_id + 1) * datum_size L \<le> k) \<longrightarrow>
        ys ! nat k = td ! nat k)"
    by (elim exE conjE) (rule that, assumption, intro conjI; assumption)
  have "fill_item W P d item_id (L, td, lbl)
      = Inr (L, ys, if output_labels L then lbl[nat item_id := cast_label W (label d)] else lbl)"
    using crop False ys lab item by (simp add: fill_item_def store_in_range)
  with rest False show ?thesis by (simp add: raw_pixel_def)
qed

subsection \<open>The cursor\<close>

lemma same_but_cursor_refl: "same_but_cursor L L"
  by (simp add: same_but_cursor_def)

lemma same_but_cursor_trans:
  assumes a: "same_but_cursor L L'" and b: "same_but_cursor L' L''"
  shows "same_but_cursor L L''"
proof -
  have "L'\<lparr>iter := x, mdb_cursor := y, mdb_value := z\<rparr> = L\<lparr>iter := x, mdb_cursor := y, mdb_value := z\<rparr>"
    for x y z
    by (subst a [unfolded same_but_cursor_def]) simp
  with b show ?thesis by (simp add: same_but_cursor_def)
qed

lemma same_but_cursor_fields:
  assumes "same_but_cursor L L'"
  shows "output_labels L' = output_labels L" "datum_channels L' = datum_channels L"
    "datum_height L' = datum_height L" "datum_width L' = datum_width L"
    "datum_size L' = datum_size L" "data_mean L' = data_mean L" "phase L' = phase L"
    "prefetch_rng L' = prefetch_rng L" "prefetch_data L' = prefetch_data L"
    "prefetch_label L' = prefetch_label L"
  by (subst assms [unfolded same_but_cursor_def], simp)+

lemma get_datum_at:
  assumes "cursor_at P L ds q"
  shows "\<exists>L1. get_datum P L = Inr (ds ! q, L1) \<and> cursor_at P L1 ds q \<and> same_but_cursor L L1"
proof (cases "backend P")
  case LEVELDB
  with assms have "get_datum P L = Inr (ds ! q, L)"
    by (simp add: cursor_at_def get_datum_def CHECK_def Valid_def iter_value_def)
  with assms show ?thesis by (auto simp: same_but_cursor_refl)
next
  case LMDB
  with assms have "get_datum P L = Inr (ds ! q, L\<lparr>mdb_cursor := Some \<lparr>records = ds, pos = q\<rparr>, mdb_value := Some (ds ! q)\<rparr>)"
    by (simp add: cursor_at_def get_datum_def)
  moreover have "cursor_at P (L\<lparr>mdb_cursor := Some \<lparr>records = ds, pos = q\<rparr>, mdb_value := Some (ds ! q)\<rparr>) ds q"
    using assms LMDB by (simp add: cursor_at_def)
  moreover have "same_but_cursor L (L\<lparr>mdb_cursor := Some \<lparr>records = ds, pos = q\<rparr>, mdb_value := Some (ds ! q)\<rparr>)"
    by (simp add: same_but_cursor_def)
  ultimately show ?thesis by blast
next
  case HDF5
  with assms show ?thesis by (simp add: cursor_at_def)
qed

lemma next_iter_at:
  assumes "cursor_at P L ds q"
  shows "\<exists>L3. next_iter P L = Inr L3 \<and> cursor_at P L3 ds (Suc q mod length ds) \<and> same_but_cursor L L3"
proof -
  from assms have q: "q < length ds" by (simp add: cursor_at_def)
  then have ne: "ds \<noteq> []" and pos: "0 < length ds" by auto
  have lt: "Suc q mod length ds < length ds" using pos by simp
  have m: "Suc q mod length ds = (if Suc q < length ds then Suc q else 0)"
    using q by (auto simp: mod_Suc)
  show ?thesis
  proof (cases "backend P")
    case LEVELDB
    let ?L3 = "L\<lparr>iter := Some \<lparr>records = ds, pos = Suc q mod length ds\<rparr>\<rparr>"
    from assms LEVELDB have "next_iter P L = Inr ?L3"
      using q ne by (simp add: cursor_at_def next_iter_def Next_def Valid_def SeekToFirst_def m)
    moreover have "cursor_at P ?L3 ds (Suc q mod length ds)"
      using LEVELDB lt by (simp add: cursor_at_def)
    moreover have "same_but_cursor L ?L3" by (simp add: same_but_cursor_def)
    ultimately show ?thesis by blast
  next
    case LMDB
    let ?L3 = "L\<lparr>mdb_cursor := Some \<lparr>records = ds, pos = Suc q mod length ds\<rparr>,
                   mdb_value := Some (ds ! (Suc q mod length ds))\<rparr>"
    have "next_iter P L = Inr ?L3"
    proof (cases "Suc q < length ds")
      case True
      with assms LMDB show ?thesis by (simp add: cursor_at_def next_iter_def)
    next
      case False
      then have z: "Suc q mod length ds = 0" using m by simp
      obtain a list where ds: "ds = a # list" using ne by (cases ds) auto
      from assms LMDB False show ?thesis
        unfolding z by (simp add: cursor_at_def next_iter_def ds)
    qed
    moreover have "cursor_at P ?L3 ds (Suc q mod length ds)"
      using LMDB lt by (simp add: cursor_at_def)
    moreover have "same_but_cursor L ?L3" by (simp add: same_but_cursor_def)
    ultimately show ?thesis by blast
  next
    case HDF5
    with assms show ?thesis by (simp add: cursor_at_def)
  qed
qed

lemma advance_at:
  assumes "cursor_at P L ds p"
  shows "\<exists>L'. advance P n L = Inr L' \<and> cursor_at P L' ds ((p + n) mod length ds) \<and> same_but_cursor L L'"
  using assms
proof (induction n arbitrary: L p)
  case 0
  then have "p < length ds" by (simp add: cursor_at_def)
  with 0 show ?case by (simp add: same_but_cursor_refl)
next
  case (Suc n)
  from next_iter_at [OF Suc.prems] obtain L3 where n: "next_iter P L = Inr L3"
    and at3: "cursor_at P L3 ds (Suc p mod length ds)" and s3: "same_but_cursor L L3" by blast
  from Suc.IH [OF at3] obtain L' where a: "advance P n L3 = Inr L'"
    and at': "cursor_at P L' ds ((Suc p mod length ds + n) mod length ds)"
    and s': "same_but_cursor L3 L'" by blast
  have "(Suc p mod length ds + n) mod length ds = (p + Suc n) mod length ds"
    by (simp add: mod_add_left_eq)
  with at' have "cursor_at P L' ds ((p + Suc n) mod length ds)" by simp
  moreover have "advance P (Suc n) L = Inr L'" by (simp add: n a)
  ultimately show ?case using same_but_cursor_trans [OF s3 s'] by blast
qed

lemma item_body_flat:
  fixes W :: "('d::{minus,times}, 'f) World"
  assumes crop: "crop_size P = 0" and at: "cursor_at P L ds q"
      and wf: "data (ds ! q) \<noteq> [] \<longrightarrow> datum_size L \<le> int (length (data (ds ! q)))"
              "data (ds ! q) = [] \<longrightarrow> datum_size L \<le> int (length (float_data (ds ! q)))"
      and mean: "datum_size L \<le> int (length (cpu_data (data_mean L)))"
      and item: "0 \<le> item_id"
      and room: "(item_id + 1) * datum_size L \<le> int (length td)"
      and lab: "output_labels L \<longrightarrow> item_id < int (length lbl)"
  shows "\<exists>L' td'. item_body W P item_id (L, td, lbl)
              = Inr (L', td', if output_labels L then lbl[nat item_id := cast_label W (label (ds ! q))] else lbl) \<and>
           cursor_at P L' ds (Suc q mod length ds) \<and> same_but_cursor L L' \<and>
           length td' = length td \<and>
           (\<forall>j. 0 \<le> j \<and> j < datum_size L \<longrightarrow>
              td' ! nat (item_id * datum_size L + j)
                = (raw_pixel W (ds ! q) j - cpu_data (data_mean L) ! nat j) * scale P) \<and>
           (\<forall>k. 0 \<le> k \<and> (k < item_id * datum_size L \<or> (item_id + 1) * datum_size L \<le> k) \<longrightarrow>
              td' ! nat k = td ! nat k)"
proof -
  from get_datum_at [OF at] obtain L1 where g: "get_datum P L = Inr (ds ! q, L1)"
    and at1: "cursor_at P L1 ds q" and s1: "same_but_cursor L L1" by blast
  note f = same_but_cursor_fields [OF s1]
  have wf1: "data (ds ! q) \<noteq> [] \<longrightarrow> datum_size L1 \<le> int (length (data (ds ! q)))"
    "data (ds ! q) = [] \<longrightarrow> datum_size L1 \<le> int (length (float_data (ds ! q)))"
    and mean1: "datum_size L1 \<le> int (length (cpu_data (data_mean L1)))"
    and room1: "(item_id + 1) * datum_size L1 \<le> int (length td)"
    and lab1: "output_labels L1 \<longrightarrow> item_id < int (length lbl)"
    using wf mean room lab by (simp_all add: f)
  from fill_item_flat [OF crop wf1 mean1 item room1 lab1, of W]
  obtain td' where fi: "fill_item W P (ds ! q) item_id (L1, td, lbl)
      = Inr (L1, td', if output_labels L1 then lbl[nat item_id := cast_label W (label (ds ! q))] else lbl)"
    and rest: "length td' = length td \<and>
           (\<forall>j. 0 \<le> j \<and> j < datum_size L1 \<longrightarrow>
              td' ! nat (item_id * datum_size L1 + j)
                = (raw_pixel W (ds ! q) j - cpu_data (data_mean L1) ! nat j) * scale P) \<and>
           (\<forall>k. 0 \<le> k \<and> (k < item_id * datum_size L1 \<or> (item_id + 1) * datum_size L1 \<le> k) \<longrightarrow>
              td' ! nat k = td ! nat k)"
    by (elim exE conjE) (rule that, assumption, intro conjI; assumption)
  from next_iter_at [OF at1] obtain L3 where n: "next_iter P L1 = Inr L3"
    and at3: "cursor_at P L3 ds (Suc q mod length ds)" and s3: "same_but_cursor L1 L3" by blast
  have "item_body W P item_id (L, td, lbl)
      = Inr (L3, td', if output_labels L then lbl[nat item_id := cast_label W (label (ds ! q))] else lbl)"
    by (simp add: item_body_def g fi n f)
  moreover note at3 same_but_cursor_trans [OF s1 s3]
  moreover from rest have "length td' = length td \<and>
           (\<forall>j. 0 \<le> j \<and> j < datum_size L \<longrightarrow>
              td' ! nat (item_id * datum_size L + j)
                = (raw_pixel W (ds ! q) j - cpu_data (data_mean L) ! nat j) * scale P) \<and>
           (\<forall>k. 0 \<le> k \<and> (k < item_id * datum_size L \<or> (item_id + 1) * datum_size L \<le> k) \<longrightarrow>
              td' ! nat k = td ! nat k)"
    by (simp add: f)
  ultimately show ?thesis by blast
qed

lemma item_loop_flat:
  fixes W :: "('d::{minus,times}, 'f) World"
  assumes crop: "crop_size P = 0" and at: "cursor_at P L ds p"
      and wf: "\<forall>d\<in>set ds. (data d \<noteq> [] \<longrightarrow> datum_size L \<le> int (length (data d))) \<and>
                           (data d = [] \<longrightarrow> datum_size L \<le> int (length (float_data d)))"
      and mean: "datum_size L \<le> int (length (cpu_data (data_mean L)))"
      and size: "0 \<le> datum_size L" and B: "0 \<le> B"
      and room: "B * datum_size L \<le> int (length td)"
      and lab: "output_labels L \<longrightarrow> B \<le> int (length lbl)"
  shows "\<exists>L' td' lbl'. for_from 0 B (item_body W P) (L, td, lbl) = Inr (L', td', lbl') \<and>
           cursor_at P L' ds ((p + nat B) mod length ds) \<and> same_but_cursor L L' \<and>
           length td' = length td \<and> length lbl' = length lbl \<and>
           (\<forall>i j. 0 \<le> i \<and> i < B \<and> 0 \<le> j \<and> j < datum_size L \<longrightarrow>
              td' ! nat (i * datum_size L + j)
                = (raw_pixel W (ds ! ((p + nat i) mod length ds)) j - cpu_data (data_mean L) ! nat j) * scale P) \<and>
           (output_labels L \<longrightarrow>
              (\<forall>i. 0 \<le> i \<and> i < B \<longrightarrow>
                 lbl' ! nat i = cast_label W (label (ds ! ((p + nat i) mod length ds))))) \<and>
           (\<not> output_labels L \<longrightarrow> lbl' = lbl)"
proof -
  let ?size = "datum_size L" and ?mean = "cpu_data (data_mean L)"
  define Inv where "Inv = (\<lambda>i (s :: ('d, 'f) DataLayer \<times> 'd list \<times> 'd list).
     cursor_at P (fst s) ds ((p + nat i) mod length ds) \<and> same_but_cursor L (fst s) \<and>
     length (fst (snd s)) = length td \<and> length (snd (snd s)) = length lbl \<and>
     (\<forall>i' j. 0 \<le> i' \<and> i' < i \<and> 0 \<le> j \<and> j < ?size \<longrightarrow>
        fst (snd s) ! nat (i' * ?size + j)
          = (raw_pixel W (ds ! ((p + nat i') mod length ds)) j - ?mean ! nat j) * scale P) \<and>
     (output_labels L \<longrightarrow>
        (\<forall>i'. 0 \<le> i' \<and> i' < i \<longrightarrow>
           snd (snd s) ! nat i' = cast_label W (label (ds ! ((p + nat i') mod length ds))))) \<and>
     (\<not> output_labels L \<longrightarrow> snd (snd s) = lbl))"
  from at have p: "p < length ds" by (simp add: cursor_at_def)
  have "\<exists>s'. for_from 0 B (item_body W P) (L, td, lbl) = Inr s' \<and> Inv B s'"
  proof (rule for_from_rule [where I = Inv])
    show "Inv 0 (L, td, lbl)" using at p by (auto simp: Inv_def same_but_cursor_refl)
    show "0 \<le> B" by fact
    fix i :: int and t :: "('d, 'f) DataLayer \<times> 'd list \<times> 'd list"
    assume i: "0 \<le> i" "i < B" and I: "Inv i t"
    obtain Li tdi lbli where t: "t = (Li, tdi, lbli)" by (cases t) auto
    let ?q = "(p + nat i) mod length ds"
    from I have ati: "cursor_at P Li ds ?q" and si: "same_but_cursor L Li"
      and ltd: "length tdi = length td" and llb: "length lbli = length lbl"
      and el: "\<And>i' j. 0 \<le> i' \<and> i' < i \<and> 0 \<le> j \<and> j < ?size \<Longrightarrow>
        tdi ! nat (i' * ?size + j)
          = (raw_pixel W (ds ! ((p + nat i') mod length ds)) j - ?mean ! nat j) * scale P"
      and lb: "output_labels L \<Longrightarrow> (\<And>i'. 0 \<le> i' \<and> i' < i \<Longrightarrow>
           lbli ! nat i' = cast_label W (label (ds ! ((p + nat i') mod length ds))))"
      and nl: "\<not> output_labels L \<Longrightarrow> lbli = lbl"
      by (simp_all add: Inv_def t)
    note f = same_but_cursor_fields [OF si]
    from ati have q: "?q < length ds" by (simp add: cursor_at_def)
    then have mem: "ds ! ?q \<in> set ds" by simp
    have wfi: "data (ds ! ?q) \<noteq> [] \<longrightarrow> datum_size Li \<le> int (length (data (ds ! ?q)))"
      "data (ds ! ?q) = [] \<longrightarrow> datum_size Li \<le> int (length (float_data (ds ! ?q)))"
      using wf mem by (simp_all add: f)
    have meani: "datum_size Li \<le> int (length (cpu_data (data_mean Li)))" using mean by (simp add: f)
    have "(i + 1) * ?size \<le> B * ?size" using i size by (intro mult_right_mono) simp_all
    then have roomi: "(i + 1) * datum_size Li \<le> int (length tdi)" using room ltd by (simp add: f)
    have labi: "output_labels Li \<longrightarrow> i < int (length lbli)" using lab i llb by (auto simp: f)
    from item_body_flat [OF crop ati wfi meani i(1) roomi labi, of W]
    obtain L' td' where ib: "item_body W P i (Li, tdi, lbli)
        = Inr (L', td', if output_labels Li then lbli[nat i := cast_label W (label (ds ! ?q))] else lbli)"
      and at': "cursor_at P L' ds (Suc ?q mod length ds)" and s': "same_but_cursor Li L'"
      and ltd': "length td' = length tdi"
      and el': "\<And>j. 0 \<le> j \<and> j < datum_size Li \<Longrightarrow>
              td' ! nat (i * datum_size Li + j)
                = (raw_pixel W (ds ! ?q) j - cpu_data (data_mean Li) ! nat j) * scale P"
      and fr': "\<And>k. 0 \<le> k \<and> (k < i * datum_size Li \<or> (i + 1) * datum_size Li \<le> k) \<Longrightarrow>
              td' ! nat k = tdi ! nat k"
      by (elim exE conjE) (rule that, assumption+, blast, blast)
    let ?lbl' = "if output_labels Li then lbli[nat i := cast_label W (label (ds ! ?q))] else lbli"
    have nx: "Suc ?q mod length ds = (p + nat (i + 1)) mod length ds"
      using i(1) by (simp add: nat_add_distrib mod_Suc_eq)
    have c1: "cursor_at P L' ds ((p + nat (i + 1)) mod length ds)" using at' nx by simp
    have c2: "same_but_cursor L L'" by (rule same_but_cursor_trans [OF si s'])
    have c3: "length td' = length td" using ltd' ltd by simp
    have c4: "length ?lbl' = length lbl" using llb by simp
    have c5: "td' ! nat (i' * ?size + j)
          = (raw_pixel W (ds ! ((p + nat i') mod length ds)) j - ?mean ! nat j) * scale P"
      if a: "0 \<le> i' \<and> i' < i + 1 \<and> 0 \<le> j \<and> j < ?size" for i' j
    proof (cases "i' = i")
      case True
      from el' [of j] a show ?thesis by (simp add: f True)
    next
      case False
      with a have lt: "i' < i" by simp
      have "(i' + 1) * ?size \<le> i * ?size" using lt size by (intro mult_right_mono) simp_all
      then have "i' * ?size + j < i * ?size" using a by (simp add: algebra_simps)
      moreover have "0 \<le> i' * ?size + j" using a size by simp
      ultimately have "td' ! nat (i' * ?size + j) = tdi ! nat (i' * ?size + j)"
        using fr' [of "i' * ?size + j"] by (simp add: f)
      also have "\<dots> = (raw_pixel W (ds ! ((p + nat i') mod length ds)) j - ?mean ! nat j) * scale P"
        using el [of i' j] a lt by simp
      finally show ?thesis .
    qed
    have c6: "?lbl' ! nat i' = cast_label W (label (ds ! ((p + nat i') mod length ds)))"
      if ol: "output_labels L" and a: "0 \<le> i' \<and> i' < i + 1" for i'
    proof (cases "i' = i")
      case True
      have "nat i < length lbli" using lab ol i llb by simp
      then show ?thesis using ol by (simp add: f True)
    next
      case False
      with a have lt: "i' < i" by simp
      then have "nat i' \<noteq> nat i" using a by simp
      then have "?lbl' ! nat i' = lbli ! nat i'" by simp
      with lb [OF ol, of i'] a lt show ?thesis by simp
    qed
    have c7: "?lbl' = lbl" if "\<not> output_labels L" using that nl by (simp add: f)
    have "Inv (i + 1) (L', td', ?lbl')"
      unfolding Inv_def fst_conv snd_conv using c1 c2 c3 c4 c5 c6 c7 by blast
    with ib show "\<exists>t'. item_body W P i t = Inr t' \<and> Inv (i + 1) t'" unfolding t by blast
  qed
  then obtain s' where r: "for_from 0 B (item_body W P) (L, td, lbl) = Inr s'" and I: "Inv B s'" by blast
  obtain L' td' lbl' where s': "s' = (L', td', lbl')" by (cases s') auto
  from I show ?thesis unfolding r s' Inv_def by (intro exI [of _ L'] exI [of _ td'] exI [of _ lbl']) simp
qed

subsection \<open>Facts about the concrete inputs\<close>

lemma example_db_nth: "k < 5 \<Longrightarrow> example_db ! k = example_datum k"
  by (simp add: example_db_def del: upt_Suc)

lemma example_db_facts:
  "length example_db = 5"
  "length (data (example_datum k)) = 9" "data (example_datum k) \<noteq> []"
  "label (example_datum k) = int k"
  "data (example_datum k) ! 0 = of_nat (10 * k + 1)"
  by (simp_all add: example_db_def example_datum_def upt_rec)

lemma flat_layer_fields:
  "output_labels (flat_layer q) = True" "iter (flat_layer q) = Some \<lparr>records = example_db, pos = q\<rparr>"
  "datum_size (flat_layer q) = 9" "cpu_data (data_mean (flat_layer q)) = replicate 9 0"
  "cpu_data (prefetch_data (flat_layer q)) = replicate 18 0"
  "cpu_data (prefetch_label (flat_layer q)) = replicate 2 0"
  "count (prefetch_data (flat_layer q)) = 18"
  by (simp_all add: flat_layer_def Reshape_def count_def)

lemma example_param_fields:
  "crop_size example_param = 0" "mirror example_param = False" "batch_size example_param = 2"
  "backend example_param = LEVELDB" "scale example_param = 1"
  by (simp_all add: example_param_def)

lemma example_world_casts:
  "cast_uint8 example_world = uint" "cast_label example_world = (\<lambda>x. x)"
  by (simp_all add: example_world_def)

lemma cursor_at_flat_layer: "q < 5 \<Longrightarrow> cursor_at example_param (flat_layer q) example_db q"
  by (simp add: cursor_at_def example_param_fields flat_layer_fields example_db_facts)

lemma mirror_layer_fields:
  "datum_channels mirror_layer = 1" "datum_height mirror_layer = 3" "datum_width mirror_layer = 3"
  "phase mirror_layer = TRAIN" "prefetch_rng mirror_layer = Some (RNG (\<lambda>n. 1 + of_nat n) 0)"
  "output_labels mirror_layer = True" "cpu_data (data_mean mirror_layer) = replicate 9 0"
  by (simp_all add: mirror_layer_def cropped_layer_def new_layer_def Reshape_def)

lemma example_datum_0: "data (example_datum 0) = [1, 2, 3, 4, 5, 6, 7, 8, 9]"
  by (simp add: example_datum_def upt_rec)

lemma flat_layer_shape:
  "datum_channels (flat_layer q) = 1" "datum_height (flat_layer q) = 3" "datum_width (flat_layer q) = 3"
  by (simp_all add: flat_layer_def)

lemma cropped_layer_fields:
  "datum_channels cropped_layer = 1" "datum_height cropped_layer = 3"
  "datum_width cropped_layer = 3" "datum_size cropped_layer = 9"
  "output_labels cropped_layer = True"
  "cpu_data (data_mean cropped_layer) = replicate 9 0"
  by (simp_all add: cropped_layer_def new_layer_def Reshape_def)

subsection \<open>The steps of setup\<close>



lemma SetUp_thread_started:
  assumes "SetUp W P L = Some (Inr L')"
  shows "thread_started L'"
proof -
  from assms obtain L1 where "CreatePrefetchThread W P L1 = Inr L'"
    by (auto simp: SetUp_def bindE_eq_Inr split: option.splits)
  then show ?thesis
    by (auto simp: CreatePrefetchThread_def CHECK_def Let_def bindE_eq_Inr split: if_splits)
qed

lemma SetUp_returns_when_started:
  "SetUp_until_prefetch W P L = Some (Inr L1) \<Longrightarrow> StartInternalThread_ok W \<Longrightarrow>
     \<exists>L'. SetUp W P L = Some (Inr L')"
  by (simp add: SetUp_def CreatePrefetchThread_def CHECK_def Let_def)

subsection \<open>Crop offsets\<close>

text \<open>
  Claim C3.  For a crop size \<open>c > 0\<close> below the sample height \<open>H\<close> and width \<open>W\<close> (which
  \<open>SetUp\<close> checks, and which are values of a 32-bit \<^verbatim>\<open>int\<close>): in the train phase the
  offsets are the next two outputs of the pipeline generator modulo \<open>H - c\<close> and \<open>W - c\<close>;
  in any other phase they are \<open>(H - c) div 2\<close> and \<open>(W - c) div 2\<close> and the layer is
  unchanged; and every pair of offsets produced lies in \<open>0 .. H - c\<close> and \<open>0 .. W - c\<close>.
\<close>

theorem crop_offsets_in_window:
  assumes c: "0 < crop_size P"
      and h: "crop_size P < datum_height L" "datum_height L < 2 ^ 31"
      and w: "crop_size P < datum_width L" "datum_width L < 2 ^ 31"
  shows "(phase L = TRAIN \<and> prefetch_rng L = Some g \<longrightarrow>
            crop_offsets P L =
              Inr ((uint (draws g (used g)) mod (datum_height L - crop_size P),
                    uint (draws g (used g + 1)) mod (datum_width L - crop_size P)),
                   L\<lparr>prefetch_rng := Some (RNG (draws g) (used g + 2))\<rparr>))
       \<and> (phase L \<noteq> TRAIN \<longrightarrow>
            crop_offsets P L =
              Inr (((datum_height L - crop_size P) div 2, (datum_width L - crop_size P) div 2), L))
       \<and> (crop_offsets P L = Inr ((h_off, w_off), L') \<longrightarrow>
            0 \<le> h_off \<and> h_off \<le> datum_height L - crop_size P \<and>
            0 \<le> w_off \<and> w_off \<le> datum_width L - crop_size P)"
  by (rule crop_offsets_cases [OF assms])

theorem crop_offsets_in_window_witness:
  "crop_offsets (example_param\<lparr>crop_size := 2\<rparr>) (crop_layer TRAIN)
     = Inr ((1, 4), (crop_layer TRAIN)\<lparr>prefetch_rng := Some (RNG (\<lambda>n. of_nat (3 * n + 1)) 2)\<rparr>)
   \<and> crop_offsets (example_param\<lparr>crop_size := 2\<rparr>) (crop_layer TEST)
     = Inr ((1, 2), crop_layer TEST)"
proof -
  let ?P = "example_param\<lparr>crop_size := 2\<rparr>"
  let ?g = "RNG (\<lambda>n. of_nat (3 * n + 1)) 0"
  have c: "0 < crop_size ?P" by simp
  have h: "crop_size ?P < datum_height (crop_layer ph)" "datum_height (crop_layer ph) < 2 ^ 31"
    and w: "crop_size ?P < datum_width (crop_layer ph)" "datum_width (crop_layer ph) < 2 ^ 31" for ph
    by (simp_all add: crop_layer_fields)
  note T = crop_offsets_in_window [OF c h w]
  have "crop_offsets ?P (crop_layer TRAIN)
      = Inr ((uint (draws ?g (used ?g)) mod (datum_height (crop_layer TRAIN) - crop_size ?P),
              uint (draws ?g (used ?g + 1)) mod (datum_width (crop_layer TRAIN) - crop_size ?P)),
             (crop_layer TRAIN)\<lparr>prefetch_rng := Some (RNG (draws ?g) (used ?g + 2))\<rparr>)"
    using T [THEN conjunct1, of TRAIN ?g]
    by (simp only: crop_layer_fields simp_thms)
  then have 1: "crop_offsets ?P (crop_layer TRAIN)
      = Inr ((1, 4), (crop_layer TRAIN)\<lparr>prefetch_rng := Some (RNG (\<lambda>n. of_nat (3 * n + 1)) 2)\<rparr>)"
    by (simp add: crop_layer_fields)
  have "crop_offsets ?P (crop_layer TEST)
      = Inr (((datum_height (crop_layer TEST) - crop_size ?P) div 2,
              (datum_width (crop_layer TEST) - crop_size ?P) div 2), crop_layer TEST)"
    using T [THEN conjunct2, THEN conjunct1, of TEST]
    by (simp add: crop_layer_fields)
  then have 2: "crop_offsets ?P (crop_layer TEST) = Inr ((1, 2), crop_layer TEST)"
    by (simp add: crop_layer_fields)
  from 1 2 show ?thesis by (rule conjI)
qed

text \<open>
  The bound on the crop size is what \<open>SetUp\<close> leaves behind: a layer that passed the
  shape checks has a sample higher and wider than the crop.
\<close>

lemma SetUp_blobs_crop:
  assumes "SetUp_blobs W P L = Inr L'"
  shows "crop_size P < datum_height L' \<and> crop_size P < datum_width L'"
  using assms
  by (auto simp: SetUp_blobs_def CHECK_def Let_def bindE_eq_Inr
      split: if_splits option.splits)

lemma SetUp_crop_below_sample:
  assumes "SetUp_until_prefetch W P L = Some (Inr L')"
  shows "crop_size P < datum_height L' \<and> crop_size P < datum_width L'"
proof -
  from assms obtain L4 where "SetUp_blobs W P L4 = Inr L'"
    by (auto simp: SetUp_until_prefetch_def bindE_eq_Inr split: sum.splits option.splits)
  then show ?thesis by (rule SetUp_blobs_crop)
qed

subsection \<open>Evaluation phase with the mirror flag\<close>

lemma get_datum_keeps:
  "get_datum P L = Inr (d, L') \<Longrightarrow> phase L' = phase L \<and> prefetch_rng L' = prefetch_rng L"
  by (auto simp: get_datum_def CHECK_def iter_value_def
      split: DB.splits option.splits if_splits prod.splits)

lemma cropped_layer_reached:
  "SetUp_until_prefetch example_world (example_param\<lparr>crop_size := 2, mirror := m\<rparr>) new_layer
     = Some (Inr cropped_layer)"
  by (simp add: SetUp_until_prefetch_def SetUp_labels_def SetUp_init_db_def SetUp_rand_skip_def
      SetUp_shape_def SetUp_blobs_def CHECK_def example_world_def example_param_def new_layer_def
      cropped_layer_def SeekToFirst_def iter_value_def Valid_def example_db_def example_datum_def
      Let_def)

text \<open>
  Claim C5 says that in the evaluation phase with \<open>crop_size > 0\<close> production succeeds
  without randomness and without mirroring, also when the mirror flag is set.  The code
  does otherwise: \<open>CreatePrefetchThread\<close> creates no generator outside the train phase,
  and the test \<^verbatim>\<open>mirror && PrefetchRand() % 2\<close> still calls \<open>PrefetchRand\<close>, whose
  \<^verbatim>\<open>CHECK(prefetch_rng_)\<close> aborts.  Whenever the thread is started in the evaluation
  phase with the mirror flag set, a nonzero crop size and a first record with byte data,
  the start succeeds, the pass of the thread ends in that abort on its first item, and
  so does the join.
\<close>

theorem eval_phase_mirror_aborts:
  assumes W: "Caffe_phase W = TEST" "StartInternalThread_ok W"
      and P: "mirror P" "crop_size P \<noteq> 0" "0 < batch_size P"
      and L: "count (prefetch_data L) \<noteq> 0"
      and d: "get_datum P (L\<lparr>phase := TEST, prefetch_rng := None, thread_started := True\<rparr>)
                = Inr (d, L')"
             "data d \<noteq> []"
  shows "CreatePrefetchThread W P L
           = Inr (L\<lparr>phase := TEST, prefetch_rng := None, thread_started := True\<rparr>)
       \<and> InternalThreadEntry W P (L\<lparr>phase := TEST, prefetch_rng := None, thread_started := True\<rparr>)
           = Inl (Fatal CHECK_prefetch_rng)
       \<and> JoinPrefetchThread W P (L\<lparr>phase := TEST, prefetch_rng := None, thread_started := True\<rparr>)
           = Inl (Fatal CHECK_prefetch_rng)"
proof -
  let ?L2 = "L\<lparr>phase := TEST, prefetch_rng := None, thread_started := True\<rparr>"
  from get_datum_keeps [OF d(1)] have L': "phase L' = TEST" "prefetch_rng L' = None"
    by simp_all
  have co: "crop_offsets P L' =
      Inr (((datum_height L' - crop_size P) sdiv 2, (datum_width L' - crop_size P) sdiv 2), L')"
    using L' by (simp add: crop_offsets_def)
  have md: "mirror_draw P L' = Inl (Fatal CHECK_prefetch_rng)"
    using L' P by (simp add: mirror_draw_def PrefetchRand_def)
  have fi: "fill_item W P d 0 (L', td, tl) = Inl (Fatal CHECK_prefetch_rng)" for td tl
    using P d(2) by (simp add: fill_item_def CHECK_def co md)
  have ib: "item_body W P 0 (?L2, td, tl) = Inl (Fatal CHECK_prefetch_rng)" for td tl
    by (simp add: item_body_def d(1) fi)
  have lp: "for_from 0 (batch_size P) (item_body W P) (?L2, td, tl)
      = Inl (Fatal CHECK_prefetch_rng)" for td tl
    using P(3) by (subst for_from.simps) (simp add: ib)
  have 1: "CreatePrefetchThread W P L = Inr ?L2"
    using W by (simp add: CreatePrefetchThread_def CHECK_def Let_def)
  have 2: "InternalThreadEntry W P ?L2 = Inl (Fatal CHECK_prefetch_rng)"
    using L P by (simp add: InternalThreadEntry_def CHECK_def lp)
  have 3: "JoinPrefetchThread W P ?L2 = Inl (Fatal CHECK_prefetch_rng)"
    by (simp add: JoinPrefetchThread_def 2)
  from 1 2 3 show ?thesis by (intro conjI)
qed

theorem eval_phase_mirror_aborts_witness:
  "CreatePrefetchThread (example_world\<lparr>Caffe_phase := TEST\<rparr>)
     (example_param\<lparr>crop_size := 2, mirror := True\<rparr>) cropped_layer
   = Inr (cropped_layer\<lparr>phase := TEST, prefetch_rng := None, thread_started := True\<rparr>)
   \<and> JoinPrefetchThread (example_world\<lparr>Caffe_phase := TEST\<rparr>)
     (example_param\<lparr>crop_size := 2, mirror := True\<rparr>)
     (cropped_layer\<lparr>phase := TEST, prefetch_rng := None, thread_started := True\<rparr>)
   = Inl (Fatal CHECK_prefetch_rng)"
proof -
  let ?W = "example_world\<lparr>Caffe_phase := TEST\<rparr>"
  let ?P = "example_param\<lparr>crop_size := 2, mirror := True\<rparr>"
  let ?L2 = "cropped_layer\<lparr>phase := TEST, prefetch_rng := None, thread_started := True\<rparr>"
  have W: "Caffe_phase ?W = TEST" "StartInternalThread_ok ?W"
    by (simp_all add: example_world_def)
  have P: "mirror ?P" "crop_size ?P \<noteq> 0" "0 < batch_size ?P"
    by (simp_all add: example_param_def)
  have L: "count (prefetch_data cropped_layer) \<noteq> 0"
    by (simp add: cropped_layer_def count_def Reshape_def)
  have d: "get_datum ?P ?L2 = Inr (example_datum 0, ?L2)"
    by (simp add: get_datum_def example_param_def cropped_layer_def CHECK_def Valid_def
        iter_value_def example_db_def upt_rec)
  have e: "data (example_datum 0) \<noteq> []" by (simp add: example_datum_def upt_rec)
  note T = eval_phase_mirror_aborts [OF W P L d e]
  from T [THEN conjunct1] T [THEN conjunct2, THEN conjunct2] show ?thesis by (rule conjI)
qed

text \<open>
  The same configuration run from a new layer: \<open>SetUp\<close> returns with the thread started,
  and the first call of \<open>Forward_cpu\<close> meets the abort.
\<close>

lemma SetUp_eval_phase_mirror_example:
  "(case SetUp (example_world\<lparr>Caffe_phase := TEST\<rparr>)
          (example_param\<lparr>crop_size := 2, mirror := True\<rparr>) new_layer of
      Some (Inr L) \<Rightarrow>
        (case Forward_cpu (example_world\<lparr>Caffe_phase := TEST\<rparr>)
                (example_param\<lparr>crop_size := 2, mirror := True\<rparr>) L of
           Inl (Fatal CHECK_prefetch_rng) \<Rightarrow> True
         | _ \<Rightarrow> False)
    | _ \<Rightarrow> False)"
  by code_simp

subsection \<open>Batch filling over the file list\<close>

text \<open>
  Claim C1 says that a read returning exactly the requested count advances the row
  offset and keeps the file, so that with files of 3 and 2 rows and a batch of 4 the
  first batch leaves file 1 at row 1 and the second batch starts with the remaining row
  of file 1.  The code compares the rows read with \<open>batch_size\<close>, not with the count it
  asked for.  On that input the first batch takes rows 1, 2, 3 of file 0 and row 4 of
  file 1, and then moves on to file 0, row 0; the second batch is the same four rows, and
  row 5 is never read.
\<close>

theorem LoadNextHdfBatch_two_files:
  "(case LoadNextHdfBatch example_world example_param hdf_layer of
      Some (Inr L1) \<Rightarrow>
        hdf_current_file L1 = 0 \<and> hdf_current_row L1 = 0 \<and>
        cpu_data (prefetch_data L1) = [1, 2, 3, 4] \<and>
        (case LoadNextHdfBatch example_world example_param L1 of
           Some (Inr L2) \<Rightarrow>
             hdf_current_file L2 = 0 \<and> hdf_current_row L2 = 0 \<and>
             cpu_data (prefetch_data L2) = [1, 2, 3, 4]
         | _ \<Rightarrow> False)
    | _ \<Rightarrow> False)"
  by code_simp

subsection \<open>Mirror without crop\<close>

text \<open>
  Claim C8, as amended.  With the mirror flag set and \<open>crop_size = 0\<close>, the prefetch pass
  aborts on every layer before it touches the cursor or a buffer: at the check of the
  prefetch blob or at the check of mirror against crop.  The check is in the pass, not in
  \<open>SetUp\<close>: \<open>SetUp\<close> returns a layer whenever its own steps go through and the thread
  starts.  No batch is produced: the first call of \<open>Forward_cpu\<close> on the layer that
  \<open>SetUp\<close> returned ends in the abort of the pass.
\<close>

theorem mirror_without_crop_is_fatal:
  fixes W :: "('d::{minus,times,zero}, 'f) World"
  assumes "mirror P" "crop_size P = 0"
  shows "InternalThreadEntry W P L =
           Inl (Fatal (if count (prefetch_data L) = 0 then CHECK_prefetch_data_count
                       else FATAL_mirror_requires_crop))
       \<and> (SetUp W P L0 = Some (Inr L') \<longrightarrow>
            Forward_cpu W P L' =
              Inl (Fatal (if count (prefetch_data L') = 0 then CHECK_prefetch_data_count
                          else FATAL_mirror_requires_crop)))
       \<and> (SetUp_until_prefetch W P L0 = Some (Inr L1) \<and> StartInternalThread_ok W \<longrightarrow>
            (\<exists>L'. SetUp W P L0 = Some (Inr L')))"
proof -
  have 1: "InternalThreadEntry W P L =
           Inl (Fatal (if count (prefetch_data L) = 0 then CHECK_prefetch_data_count
                       else FATAL_mirror_requires_crop))" for L :: "('d, 'f) DataLayer"
    using assms by (simp add: InternalThreadEntry_def CHECK_def)
  have 2: "Forward_cpu W P L' =
              Inl (Fatal (if count (prefetch_data L') = 0 then CHECK_prefetch_data_count
                          else FATAL_mirror_requires_crop))"
    if "SetUp W P L0 = Some (Inr L')"
    using SetUp_thread_started [OF that]
    by (simp add: Forward_cpu_def JoinPrefetchThread_def 1)
  have 3: "\<exists>L'. SetUp W P L0 = Some (Inr L')"
    if "SetUp_until_prefetch W P L0 = Some (Inr L1)" "StartInternalThread_ok W"
    using that by (rule SetUp_returns_when_started)
  from 1 2 3 show ?thesis by blast
qed

theorem mirror_without_crop_is_fatal_witness:
  "InternalThreadEntry example_world (example_param\<lparr>mirror := True\<rparr>) (flat_layer 0)
     = Inl (Fatal FATAL_mirror_requires_crop)
   \<and> (\<exists>L'. SetUp example_world (example_param\<lparr>mirror := True\<rparr>) new_layer = Some (Inr L') \<and>
            Forward_cpu example_world (example_param\<lparr>mirror := True\<rparr>) L'
              = Inl (Fatal FATAL_mirror_requires_crop))"
proof -
  let ?P = "example_param\<lparr>mirror := True\<rparr>"
  have m: "mirror ?P" "crop_size ?P = 0" by (simp_all add: example_param_def)
  note T = mirror_without_crop_is_fatal [OF m]
  have c: "count (prefetch_data (flat_layer 0)) \<noteq> 0"
    by (simp add: flat_layer_def count_def Reshape_def)
  have 1: "InternalThreadEntry example_world ?P (flat_layer 0)
      = Inl (Fatal FATAL_mirror_requires_crop)"
    using T [THEN conjunct1, of example_world "flat_layer 0"] c by simp
  have u: "SetUp_until_prefetch example_world ?P new_layer = Some (Inr (flat_layer 0))"
    by (simp add: SetUp_until_prefetch_def SetUp_labels_def SetUp_init_db_def SetUp_rand_skip_def
        SetUp_shape_def SetUp_blobs_def CHECK_def example_world_def example_param_def new_layer_def
        flat_layer_def SeekToFirst_def iter_value_def Valid_def example_db_def example_datum_def
        Let_def)
  have s: "StartInternalThread_ok example_world" by (simp add: example_world_def)
  from T [THEN conjunct2, THEN conjunct2, of example_world new_layer "flat_layer 0"] u s
  obtain L' where r: "SetUp example_world ?P new_layer = Some (Inr L')" by blast
  then have p: "prefetch_data L' = prefetch_data (flat_layer 0)"
    using u by (auto simp: SetUp_def CreatePrefetchThread_def CHECK_def Let_def split: if_splits)
  from T [THEN conjunct2, THEN conjunct1, of example_world new_layer L'] r
  have "Forward_cpu example_world ?P L' = Inl (Fatal FATAL_mirror_requires_crop)"
    using c by (simp add: p)
  with 1 r show ?thesis by blast
qed

text \<open>
  Claim C8 as written places the abort in setup.  On the five-record store with the
  mirror flag set and \<open>crop_size = 0\<close>, \<open>SetUp\<close> returns a layer.
\<close>

theorem SetUp_returns_with_mirror_without_crop:
  "map_option isl (SetUp example_world (example_param\<lparr>mirror := True\<rparr>) new_layer) = Some False"
  by code_simp

subsection \<open>The label dimension\<close>

lemma SetUp_labels_fails:
  "SetUp_labels W P L = Inl e \<Longrightarrow> SetUp W P L = Some (Inl e)"
  by (simp add: SetUp_def SetUp_until_prefetch_def)

text \<open>
  Claim C10.  With one output tensor \<open>SetUp\<close> aborts unless \<open>label_dim = 1\<close>; with any
  other number of output tensors (two, for this layer) it aborts unless \<open>label_dim \<ge> 1\<close>.
  The abort is the one of the label check, or the earlier one of the base class.  So a
  layer that \<open>SetUp\<close> returns with one output has \<open>label_dim = 1\<close>.
\<close>

theorem label_dim_checked:
  "(top_size W = 1 \<and> label_dim P \<noteq> 1 \<longrightarrow>
      SetUp W P L = Some (Inl (Fatal (if Layer_SetUp_ok W then CHECK_label_dim_unused
                                        else FATAL_layer_setup))))
   \<and> (top_size W \<noteq> 1 \<and> label_dim P < 1 \<longrightarrow>
      SetUp W P L = Some (Inl (Fatal (if Layer_SetUp_ok W then CHECK_label_dim_ge_1
                                        else FATAL_layer_setup))))
   \<and> (SetUp W P L = Some (Inr L') \<longrightarrow>
        (top_size W = 1 \<longrightarrow> label_dim P = 1) \<and> (top_size W \<noteq> 1 \<longrightarrow> 1 \<le> label_dim P))"
proof -
  have 1: "SetUp W P L = Some (Inl (Fatal (if Layer_SetUp_ok W then CHECK_label_dim_unused
                                        else FATAL_layer_setup)))"
    if "top_size W = 1" "label_dim P \<noteq> 1"
    using that by (intro SetUp_labels_fails) (simp add: SetUp_labels_def CHECK_def)
  have 2: "SetUp W P L = Some (Inl (Fatal (if Layer_SetUp_ok W then CHECK_label_dim_ge_1
                                        else FATAL_layer_setup)))"
    if "top_size W \<noteq> 1" "label_dim P < 1"
    using that by (intro SetUp_labels_fails) (simp add: SetUp_labels_def CHECK_def)
  have 3: "(top_size W = 1 \<longrightarrow> label_dim P = 1) \<and> (top_size W \<noteq> 1 \<longrightarrow> 1 \<le> label_dim P)"
    if "SetUp W P L = Some (Inr L')"
    using that 1 2
    by (cases "top_size W = 1"; cases "label_dim P = 1"; cases "label_dim P < 1") auto
  show ?thesis using 1 2 3 by blast
qed

theorem label_dim_checked_witness:
  "SetUp (example_world\<lparr>top_size := 1\<rparr>) (example_param\<lparr>label_dim := 2\<rparr>) new_layer
     = Some (Inl (Fatal CHECK_label_dim_unused))
   \<and> SetUp example_world (example_param\<lparr>label_dim := 0\<rparr>) new_layer
     = Some (Inl (Fatal CHECK_label_dim_ge_1))"
  using label_dim_checked [of "example_world\<lparr>top_size := 1\<rparr>"
      "example_param\<lparr>label_dim := 2\<rparr>" new_layer]
    label_dim_checked [of example_world "example_param\<lparr>label_dim := 0\<rparr>" new_layer]
  by (simp add: example_world_def example_param_def)

subsection \<open>Cursor wraparound\<close>

text \<open>
  Claim C6.  On the sorted store and the transactional store, with the cursor on record
  \<open>p\<close> of \<open>K \<ge> 1\<close> records: \<open>n\<close> moves leave it on record \<open>(p + n) mod K\<close>, so \<open>K\<close> moves
  bring it back, and a move past the last record lands on record 0.  With \<open>crop_size = 0\<close>
  and records that hold a full sample, a prefetch pass from any record succeeds for any
  batch size: item \<open>i\<close> of the batch is the transform of record \<open>(p + i) mod K\<close> with its
  label, and the cursor ends on record \<open>(p + batch_size) mod K\<close>.
\<close>

theorem cursor_wraps_and_production_continues:
  fixes W :: "('d::{minus,times}, 'f) World"
  assumes crop: "crop_size P = 0" "\<not> mirror P" and at: "cursor_at P L ds p"
      and wf: "\<forall>d\<in>set ds. (data d \<noteq> [] \<longrightarrow> datum_size L \<le> int (length (data d))) \<and>
                           (data d = [] \<longrightarrow> datum_size L \<le> int (length (float_data d)))"
      and mean: "datum_size L \<le> int (length (cpu_data (data_mean L)))"
      and size: "0 \<le> datum_size L" and B: "0 \<le> batch_size P"
      and cnt: "count (prefetch_data L) \<noteq> 0"
      and room: "batch_size P * datum_size L \<le> int (length (cpu_data (prefetch_data L)))"
      and lab: "output_labels L \<longrightarrow> batch_size P \<le> int (length (cpu_data (prefetch_label L)))"
  shows "(\<exists>L'. advance P n L = Inr L' \<and> cursor_at P L' ds ((p + n) mod length ds))
       \<and> (\<exists>L'. advance P (length ds) L = Inr L' \<and> cursor_at P L' ds p)
       \<and> (\<exists>L'. InternalThreadEntry W P L = Inr L' \<and>
             cursor_at P L' ds ((p + nat (batch_size P)) mod length ds) \<and>
             (\<forall>i j. 0 \<le> i \<and> i < batch_size P \<and> 0 \<le> j \<and> j < datum_size L \<longrightarrow>
                cpu_data (prefetch_data L') ! nat (i * datum_size L + j)
                  = (raw_pixel W (ds ! ((p + nat i) mod length ds)) j
                       - cpu_data (data_mean L) ! nat j) * scale P) \<and>
             (output_labels L \<longrightarrow>
                (\<forall>i. 0 \<le> i \<and> i < batch_size P \<longrightarrow>
                   cpu_data (prefetch_label L') ! nat i
                     = cast_label W (label (ds ! ((p + nat i) mod length ds))))))"
proof -
  from at have p: "p < length ds" by (simp add: cursor_at_def)
  from advance_at [OF at, of n]
  have 1: "\<exists>L'. advance P n L = Inr L' \<and> cursor_at P L' ds ((p + n) mod length ds)" by blast
  from advance_at [OF at, of "length ds"] p
  have 2: "\<exists>L'. advance P (length ds) L = Inr L' \<and> cursor_at P L' ds p" by auto
  from item_loop_flat [OF crop(1) at wf mean size B room lab, of W]
  obtain L1 td' lbl' where r: "for_from 0 (batch_size P) (item_body W P)
        (L, cpu_data (prefetch_data L), cpu_data (prefetch_label L)) = Inr (L1, td', lbl')"
    and at1: "cursor_at P L1 ds ((p + nat (batch_size P)) mod length ds)"
    and el: "\<forall>i j. 0 \<le> i \<and> i < batch_size P \<and> 0 \<le> j \<and> j < datum_size L \<longrightarrow>
              td' ! nat (i * datum_size L + j)
                = (raw_pixel W (ds ! ((p + nat i) mod length ds)) j - cpu_data (data_mean L) ! nat j) * scale P"
    and lb: "output_labels L \<longrightarrow>
              (\<forall>i. 0 \<le> i \<and> i < batch_size P \<longrightarrow>
                 lbl' ! nat i = cast_label W (label (ds ! ((p + nat i) mod length ds))))"
    by (elim exE conjE) (rule that, assumption+)
  let ?L' = "L1\<lparr>prefetch_data := (prefetch_data L1)\<lparr>cpu_data := td'\<rparr>,
                 prefetch_label := (prefetch_label L1)\<lparr>cpu_data := lbl'\<rparr>\<rparr>"
  have "InternalThreadEntry W P L = Inr ?L'"
    using crop cnt by (simp add: InternalThreadEntry_def CHECK_def r)
  moreover have "cursor_at P ?L' ds ((p + nat (batch_size P)) mod length ds)"
    using at1 by (simp add: cursor_at_def split: DB.splits)
  moreover have "cpu_data (prefetch_data ?L') = td'" "cpu_data (prefetch_label ?L') = lbl'" by simp_all
  ultimately have 3: "\<exists>L'. InternalThreadEntry W P L = Inr L' \<and>
             cursor_at P L' ds ((p + nat (batch_size P)) mod length ds) \<and>
             (\<forall>i j. 0 \<le> i \<and> i < batch_size P \<and> 0 \<le> j \<and> j < datum_size L \<longrightarrow>
                cpu_data (prefetch_data L') ! nat (i * datum_size L + j)
                  = (raw_pixel W (ds ! ((p + nat i) mod length ds)) j
                       - cpu_data (data_mean L) ! nat j) * scale P) \<and>
             (output_labels L \<longrightarrow>
                (\<forall>i. 0 \<le> i \<and> i < batch_size P \<longrightarrow>
                   cpu_data (prefetch_label L') ! nat i
                     = cast_label W (label (ds ! ((p + nat i) mod length ds)))))"
    using el lb by (intro exI [of _ ?L']) (simp only: simp_thms)
  from 1 2 3 show ?thesis by (intro conjI)
qed

text \<open>
  The scenario of the claim: five records, \<open>batch_size = 2\<close>, \<open>crop_size = 0\<close>.  Five moves
  from record 0 return to record 0; the pass that starts on record 4 produces records 4
  and 0 and leaves the cursor on record 1.
\<close>

theorem cursor_wraps_and_production_continues_witness:
  "(\<exists>L'. advance example_param 5 (flat_layer 0) = Inr L' \<and> cursor_at example_param L' example_db 0)
   \<and> (\<exists>L'. InternalThreadEntry example_world example_param (flat_layer 4) = Inr L' \<and>
          cursor_at example_param L' example_db 1 \<and>
          cpu_data (prefetch_data L') ! 0 = 41 \<and> cpu_data (prefetch_data L') ! 9 = 1 \<and>
          cpu_data (prefetch_label L') ! 0 = 4 \<and> cpu_data (prefetch_label L') ! 1 = 0)"
proof -
  have wf: "\<forall>d\<in>set example_db.
      (data d \<noteq> [] \<longrightarrow> datum_size (flat_layer q) \<le> int (length (data d))) \<and>
      (data d = [] \<longrightarrow> datum_size (flat_layer q) \<le> int (length (float_data d)))" for q
    by (simp add: example_db_def flat_layer_fields example_db_facts)
  have T: "(\<exists>L'. advance example_param n (flat_layer q) = Inr L'
                 \<and> cursor_at example_param L' example_db ((q + n) mod length example_db))
       \<and> (\<exists>L'. advance example_param (length example_db) (flat_layer q) = Inr L'
                 \<and> cursor_at example_param L' example_db q)
       \<and> (\<exists>L'. InternalThreadEntry example_world example_param (flat_layer q) = Inr L' \<and>
             cursor_at example_param L' example_db ((q + nat (batch_size example_param)) mod length example_db) \<and>
             (\<forall>i j. 0 \<le> i \<and> i < batch_size example_param \<and> 0 \<le> j \<and> j < datum_size (flat_layer q) \<longrightarrow>
                cpu_data (prefetch_data L') ! nat (i * datum_size (flat_layer q) + j)
                  = (raw_pixel example_world (example_db ! ((q + nat i) mod length example_db)) j
                       - cpu_data (data_mean (flat_layer q)) ! nat j) * scale example_param) \<and>
             (output_labels (flat_layer q) \<longrightarrow>
                (\<forall>i. 0 \<le> i \<and> i < batch_size example_param \<longrightarrow>
                   cpu_data (prefetch_label L') ! nat i
                     = cast_label example_world (label (example_db ! ((q + nat i) mod length example_db))))))"
    if "q < 5" for q n
    by (rule cursor_wraps_and_production_continues [OF _ _ cursor_at_flat_layer [OF that] wf])
       (simp_all add: example_param_fields flat_layer_fields)
  from T [of 0 5, THEN conjunct2, THEN conjunct1]
  have 1: "\<exists>L'. advance example_param 5 (flat_layer 0) = Inr L' \<and> cursor_at example_param L' example_db 0"
    by (simp add: example_db_facts)
  from T [of 4 0, THEN conjunct2, THEN conjunct2]
  obtain L' where r: "InternalThreadEntry example_world example_param (flat_layer 4) = Inr L'"
    and at: "cursor_at example_param L' example_db ((4 + nat (batch_size example_param)) mod length example_db)"
    and el: "\<And>i j. 0 \<le> i \<and> i < batch_size example_param \<and> 0 \<le> j \<and> j < datum_size (flat_layer 4) \<Longrightarrow>
                cpu_data (prefetch_data L') ! nat (i * datum_size (flat_layer 4) + j)
                  = (raw_pixel example_world (example_db ! ((4 + nat i) mod length example_db)) j
                       - cpu_data (data_mean (flat_layer 4)) ! nat j) * scale example_param"
    and lb: "\<And>i. 0 \<le> i \<and> i < batch_size example_param \<Longrightarrow>
                   cpu_data (prefetch_label L') ! nat i
                     = cast_label example_world (label (example_db ! ((4 + nat i) mod length example_db)))"
    by (auto simp: flat_layer_fields)
  have a: "cursor_at example_param L' example_db 1"
    using at by (simp add: example_param_fields example_db_facts)
  have b: "cpu_data (prefetch_data L') ! 0 = 41"
    using el [of 0 0]
    by (simp add: example_param_fields flat_layer_fields example_db_facts example_db_nth raw_pixel_def example_world_casts)
  have c: "cpu_data (prefetch_data L') ! 9 = 1"
    using el [of 1 0]
    by (simp add: example_param_fields flat_layer_fields example_db_facts example_db_nth raw_pixel_def example_world_casts)
  have d: "cpu_data (prefetch_label L') ! 0 = 4"
    using lb [of 0] by (simp add: example_param_fields example_db_facts example_db_nth example_world_casts)
  have e: "cpu_data (prefetch_label L') ! 1 = 0"
    using lb [of 1] by (simp add: example_param_fields example_db_facts example_db_nth example_world_casts)
  from 1 r a b c d e show ?thesis by blast
qed

text \<open>
  The same scenario from \<open>SetUp\<close> through four calls of \<open>Forward_cpu\<close>: the batches hold
  records 0 1, 2 3, 4 0 and 1 2.
\<close>

lemma five_records_batches_of_two:
  "(case SetUp example_world example_param new_layer of
      Some (Inr L) \<Rightarrow>
        (case consume example_world example_param 4 L of
           Inr batches \<Rightarrow>
             map snd batches = [Some [0, 1], Some [2, 3], Some [4, 0], Some [1, 2]] \<and>
             map fst batches =
               [[1, 2, 3, 4, 5, 6, 7, 8, 9, 11, 12, 13, 14, 15, 16, 17, 18, 19],
                [21, 22, 23, 24, 25, 26, 27, 28, 29, 31, 32, 33, 34, 35, 36, 37, 38, 39],
                [41, 42, 43, 44, 45, 46, 47, 48, 49, 1, 2, 3, 4, 5, 6, 7, 8, 9],
                [11, 12, 13, 14, 15, 16, 17, 18, 19, 21, 22, 23, 24, 25, 26, 27, 28, 29]]
         | Inl e \<Rightarrow> False)
    | _ \<Rightarrow> False)"
  by code_simp

text \<open>
  The transactional store gives the same four batches.
\<close>

lemma five_records_batches_of_two_lmdb:
  "(case SetUp example_world (example_param\<lparr>backend := LMDB\<rparr>) new_layer of
      Some (Inr L) \<Rightarrow>
        (case consume example_world (example_param\<lparr>backend := LMDB\<rparr>) 4 L of
           Inr batches \<Rightarrow>
             map snd batches = [Some [0, 1], Some [2, 3], Some [4, 0], Some [1, 2]]
         | Inl e \<Rightarrow> False)
    | _ \<Rightarrow> False)"
  by code_simp
subsection \<open>The startup skip\<close>























text \<open>
  The five-record store with \<open>rand_skip = 3\<close> and a first draw of 1, run through \<open>SetUp\<close>
  and three calls of \<open>Forward_cpu\<close>: the batches hold records 1 2, 3 4 and 0 1.
\<close>

lemma rand_skip_three_batches:
  "(case SetUp example_world (example_param\<lparr>rand_skip := 3\<rparr>) new_layer of
      Some (Inr L) \<Rightarrow>
        (case consume example_world (example_param\<lparr>rand_skip := 3\<rparr>) 3 L of
           Inr batches \<Rightarrow> map snd batches = [Some [1, 2], Some [3, 4], Some [0, 1]]
         | Inl e \<Rightarrow> False)
    | _ \<Rightarrow> False)"
  by code_simp

text \<open>
  The two-file list with a block of four rows and \<open>rand_skip = 1\<close>: the first block load
  copies into the prefetch blob before it has a shape, and the skip block is not reached.
\<close>

lemma rand_skip_after_block_load:
  "(case SetUp example_world
           (example_param\<lparr>source := ''list'', backend := HDF5, rand_skip := 1\<rparr>) new_layer of
      Some (Inl (Undefined UB_index_out_of_range)) \<Rightarrow> True
    | _ \<Rightarrow> False)"
  by code_simp

subsection \<open>A source that cannot be opened\<close>

lemma LoadNextHdfBatch_no_files:
  "hdf_filenames L = [] \<Longrightarrow>
   LoadNextHdfBatch W P L =
     Some (if 0 < hdf5_batch_size P then Inl (Undefined UB_index_out_of_range) else Inr L)"
  by (simp add: LoadNextHdfBatch_def LoadNextHdfBatch_loop.simps [of W P 0 L]
      LoadNextHdfBatch_body_def load_def)

lemma SetUp_init_db_fails:
  "SetUp_labels W P L = Inr L1 \<Longrightarrow> SetUp_init_db W P L1 = Some (Inl e) \<Longrightarrow> SetUp W P L = Some (Inl e)"
  by (simp add: SetUp_def SetUp_until_prefetch_def)

text \<open>
  Claim C7 says that for every backend a source that cannot be opened aborts \<open>SetUp\<close>.
  The two stores do: the open is checked.  The file list does not: an unreadable list is
  read as an empty one without any check, and \<open>SetUp\<close> goes on to load the first block.
  With a batch size of zero that step returns the layer; otherwise it indexes the empty
  vector of file names, which is undefined behaviour and no abort the code asks for.
\<close>

theorem open_failure_by_backend:
  assumes lab: "SetUp_labels W P L = Inr L1"
  shows "(backend P = LEVELDB \<and> leveldb_Open W (source P) = None \<longrightarrow>
            SetUp W P L = Some (Inl (Fatal (if label_dim P = 1 then CHECK_leveldb_open
                                              else CHECK_label_dim_backend))))
       \<and> (backend P = LMDB \<and> mdb_env_open W (source P) = None \<longrightarrow>
            SetUp W P L = Some (Inl (Fatal (if label_dim P \<noteq> 1 then CHECK_label_dim_backend
                                              else if \<not> mdb_env_create_ok W then CHECK_mdb_env_create
                                              else if \<not> mdb_env_set_mapsize_ok W then CHECK_mdb_env_set_mapsize
                                              else CHECK_mdb_env_open))))
       \<and> (backend P = HDF5 \<and> ifstream_tokens W (source P) = None \<longrightarrow>
            SetUp_init_db W P L1 =
              Some (if 0 < hdf5_batch_size P then Inl (Undefined UB_index_out_of_range)
                    else Inr (L1\<lparr>hdf_filenames := [], hdf_num_files := 0,
                                 hdf_current_file := 0, hdf_current_row := 0\<rparr>)))
       \<and> (backend P = HDF5 \<and> ifstream_tokens W (source P) = None \<and> 0 < hdf5_batch_size P \<longrightarrow>
            SetUp W P L = Some (Inl (Undefined UB_index_out_of_range)))"
proof -
  have 1: "SetUp W P L = Some (Inl (Fatal (if label_dim P = 1 then CHECK_leveldb_open
                                              else CHECK_label_dim_backend)))"
    if "backend P = LEVELDB" "leveldb_Open W (source P) = None"
    using that by (intro SetUp_init_db_fails [OF lab]) (simp add: SetUp_init_db_def CHECK_def)
  have 2: "SetUp W P L = Some (Inl (Fatal (if label_dim P \<noteq> 1 then CHECK_label_dim_backend
                                              else if \<not> mdb_env_create_ok W then CHECK_mdb_env_create
                                              else if \<not> mdb_env_set_mapsize_ok W then CHECK_mdb_env_set_mapsize
                                              else CHECK_mdb_env_open)))"
    if "backend P = LMDB" "mdb_env_open W (source P) = None"
    using that by (intro SetUp_init_db_fails [OF lab]) (simp add: SetUp_init_db_def CHECK_def)
  have 3: "SetUp_init_db W P L1 =
              Some (if 0 < hdf5_batch_size P then Inl (Undefined UB_index_out_of_range)
                    else Inr (L1\<lparr>hdf_filenames := [], hdf_num_files := 0,
                                 hdf_current_file := 0, hdf_current_row := 0\<rparr>))"
    if "backend P = HDF5" "ifstream_tokens W (source P) = None"
    using that by (simp add: SetUp_init_db_def LoadNextHdfBatch_no_files)
  have 4: "SetUp W P L = Some (Inl (Undefined UB_index_out_of_range))"
    if "backend P = HDF5" "ifstream_tokens W (source P) = None" "0 < hdf5_batch_size P"
    using that 3 by (intro SetUp_init_db_fails [OF lab]) simp
  from 1 2 3 4 show ?thesis by blast
qed

theorem open_failure_by_backend_witness:
  "SetUp example_world (example_param\<lparr>source := ''missing''\<rparr>) new_layer
     = Some (Inl (Fatal CHECK_leveldb_open))
   \<and> SetUp example_world (example_param\<lparr>source := ''missing'', backend := LMDB\<rparr>) new_layer
     = Some (Inl (Fatal CHECK_mdb_env_open))
   \<and> SetUp example_world (example_param\<lparr>source := ''missing'', backend := HDF5\<rparr>) new_layer
     = Some (Inl (Undefined UB_index_out_of_range))"
proof -
  have lab: "SetUp_labels example_world (example_param\<lparr>source := ''missing'', backend := b\<rparr>) new_layer
      = Inr (new_layer\<lparr>output_labels := True\<rparr>)" for b
    by (simp add: SetUp_labels_def CHECK_def example_world_def example_param_def)
  note T = open_failure_by_backend [OF lab]
  from T [of LEVELDB, THEN conjunct1]
  have 1: "SetUp example_world (example_param\<lparr>source := ''missing''\<rparr>) new_layer
     = Some (Inl (Fatal CHECK_leveldb_open))"
    by (simp add: example_world_def example_param_def)
  from T [of LMDB, THEN conjunct2, THEN conjunct1]
  have 2: "SetUp example_world (example_param\<lparr>source := ''missing'', backend := LMDB\<rparr>) new_layer
     = Some (Inl (Fatal CHECK_mdb_env_open))"
    by (simp add: example_world_def example_param_def)
  from T [of HDF5, THEN conjunct2, THEN conjunct2, THEN conjunct2]
  have 3: "SetUp example_world (example_param\<lparr>source := ''missing'', backend := HDF5\<rparr>) new_layer
     = Some (Inl (Undefined UB_index_out_of_range))"
    by (simp add: example_world_def example_param_def)
  from 1 2 3 show ?thesis by (intro conjI)
qed

subsection \<open>Mirroring\<close>

lemma crop_offsets_window:
  assumes "0 < crop_size P" "crop_size P < datum_height L" "datum_height L < 2 ^ 31"
    "crop_size P < datum_width L" "datum_width L < 2 ^ 31"
    and "crop_offsets P L = Inr ((h_off, w_off), L1)"
  shows "0 \<le> h_off" "h_off + crop_size P \<le> datum_height L"
        "0 \<le> w_off" "w_off + crop_size P \<le> datum_width L"
  using crop_offsets_cases [OF assms(1-5), of undefined h_off w_off L1, THEN conjunct2, THEN conjunct2] assms(6)
  by simp_all

text \<open>
  Claim C4.  For a cropped sample with offsets \<open>(h_off, w_off)\<close>, every output element
  \<open>(c, h, w)\<close> of the crop window is the transform of the raw pixel of channel \<open>c\<close>, row
  \<open>h + h_off\<close> and column \<open>crop_size - 1 - w + w_off\<close> when the mirror is applied, and
  column \<open>w + w_off\<close> when it is not; the mean is taken at the same source index.  The
  indices \<open>(c, h, w)\<close> range over the crop window, whose width \<open>crop_size\<close> is the
  \<open>W_total\<close> of the claim: the window is written with its columns reversed.
\<close>

theorem mirror_within_crop_window:
  fixes W :: "('d::{minus,times}, 'f) World"
  assumes n: "0 < crop_size P"
      and dims: "crop_size P < datum_height L" "datum_height L < 2 ^ 31"
                "crop_size P < datum_width L" "datum_width L < 2 ^ 31"
      and dat: "data d \<noteq> []"
      and co: "crop_offsets P L = Inr ((h_off, w_off), L1)"
      and md: "mirror_draw P L1 = Inr (mirrored, L2)"
      and len: "int (length (data d)) = datum_channels L * datum_height L * datum_width L"
               "int (length (cpu_data (data_mean L))) = datum_channels L * datum_height L * datum_width L"
      and item: "0 \<le> item_id"
      and room: "(item_id + 1) * (datum_channels L * (crop_size P * crop_size P)) \<le> int (length td)"
      and lab: "output_labels L \<longrightarrow> item_id < int (length lbl)"
  shows "\<exists>td' lbl'. fill_item W P d item_id (L, td, lbl) = Inr (L2, td', lbl') \<and>
           (\<forall>c h w. 0 \<le> c \<and> c < datum_channels L \<and> 0 \<le> h \<and> h < crop_size P \<and>
                    0 \<le> w \<and> w < crop_size P \<longrightarrow>
              td' ! nat (((item_id * datum_channels L + c) * crop_size P + h) * crop_size P + w)
                = (cast_uint8 W (data d !
                     nat ((c * datum_height L + h + h_off) * datum_width L
                          + (if mirrored then crop_size P - 1 - w else w) + w_off))
                   - cpu_data (data_mean L) !
                     nat ((c * datum_height L + h + h_off) * datum_width L
                          + (if mirrored then crop_size P - 1 - w else w) + w_off))
                  * scale P)"
proof -
  have crop: "crop_size P \<noteq> 0" using n by simp
  note off = crop_offsets_window [OF n dims co]
  from fill_item_crop [OF crop dat co md off len item room lab, of W]
  obtain td' where r: "fill_item W P d item_id (L, td, lbl)
              = Inr (L2, td', if output_labels L then lbl[nat item_id := cast_label W (label d)] else lbl)"
    and el: "\<forall>c h w. 0 \<le> c \<and> c < datum_channels L \<and> 0 \<le> h \<and> h < crop_size P \<and> 0 \<le> w \<and> w < crop_size P \<longrightarrow>
              td' ! nat (((item_id * datum_channels L + c) * crop_size P + h) * crop_size P + w)
                = crop_element W P L (data d) h_off w_off c h (if mirrored then crop_size P - 1 - w else w)"
    by blast
  show ?thesis
    by (intro exI conjI, rule r) (use el in \<open>simp add: crop_element_def\<close>)
qed

theorem mirror_within_crop_window_witness:
  "\<exists>td' lbl'.
     fill_item example_world (example_param\<lparr>crop_size := 2, mirror := True\<rparr>) (example_datum 0) 0
       (mirror_layer, replicate 8 0, replicate 2 0)
     = Inr (mirror_layer\<lparr>prefetch_rng := Some (RNG (\<lambda>n. 1 + of_nat n) 3)\<rparr>, td', lbl') \<and>
     td' ! 0 = 2 \<and> td' ! 1 = 1 \<and> td' ! 2 = 5 \<and> td' ! 3 = 4"
proof -
  let ?P = "example_param\<lparr>crop_size := 2, mirror := True\<rparr>"
  let ?L1 = "mirror_layer\<lparr>prefetch_rng := Some (RNG (\<lambda>n. 1 + of_nat n) 2)\<rparr>"
  let ?L2 = "mirror_layer\<lparr>prefetch_rng := Some (RNG (\<lambda>n. 1 + of_nat n) 3)\<rparr>"
  have n: "0 < crop_size ?P" by simp
  have dims: "crop_size ?P < datum_height mirror_layer" "datum_height mirror_layer < 2 ^ 31"
    "crop_size ?P < datum_width mirror_layer" "datum_width mirror_layer < 2 ^ 31"
    by (simp_all add: mirror_layer_fields)
  have co: "crop_offsets ?P mirror_layer = Inr ((0, 0), ?L1)"
    using crop_offsets_cases [OF n dims, of "RNG (\<lambda>n. 1 + of_nat n) 0", THEN conjunct1]
    by (simp add: mirror_layer_fields)
  have md: "mirror_draw ?P ?L1 = Inr (True, ?L2)"
    by (simp add: mirror_draw_def PrefetchRand_def rng_call_def example_param_def)
  have dat: "data (example_datum 0) \<noteq> []" by (simp add: example_datum_0)
  have len: "int (length (data (example_datum 0)))
      = datum_channels mirror_layer * datum_height mirror_layer * datum_width mirror_layer"
    "int (length (cpu_data (data_mean mirror_layer)))
      = datum_channels mirror_layer * datum_height mirror_layer * datum_width mirror_layer"
    by (simp_all add: mirror_layer_fields example_datum_0)
  have room: "(0 + 1) * (datum_channels mirror_layer * (crop_size ?P * crop_size ?P))
      \<le> int (length (replicate 8 (0::int)))"
    by (simp add: mirror_layer_fields)
  have lab: "output_labels mirror_layer \<longrightarrow> 0 < int (length (replicate 2 (0::int)))" by simp
  from mirror_within_crop_window [OF n dims dat co md len order_refl room lab, of example_world]
  obtain td' lbl' where r: "fill_item example_world ?P (example_datum 0) 0
       (mirror_layer, replicate 8 0, replicate 2 0) = Inr (?L2, td', lbl')"
    and el: "\<And>c h w. 0 \<le> c \<and> c < datum_channels mirror_layer \<and> 0 \<le> h \<and> h < crop_size ?P \<and>
                    0 \<le> w \<and> w < crop_size ?P \<Longrightarrow>
              td' ! nat (((0 * datum_channels mirror_layer + c) * crop_size ?P + h) * crop_size ?P + w)
                = (cast_uint8 example_world (data (example_datum 0) !
                     nat ((c * datum_height mirror_layer + h + 0) * datum_width mirror_layer
                          + (if True then crop_size ?P - 1 - w else w) + 0))
                   - cpu_data (data_mean mirror_layer) !
                     nat ((c * datum_height mirror_layer + h + 0) * datum_width mirror_layer
                          + (if True then crop_size ?P - 1 - w else w) + 0))
                  * scale ?P"
    by blast
  have e0: "td' ! 0 = 2" using el [of 0 0 0]
    by (simp add: mirror_layer_fields example_datum_0 example_world_casts example_param_fields)
  have e1: "td' ! 1 = 1" using el [of 0 0 1]
    by (simp add: mirror_layer_fields example_datum_0 example_world_casts example_param_fields)
  have e2: "td' ! 2 = 5" using el [of 0 1 0]
    by (simp add: mirror_layer_fields example_datum_0 example_world_casts example_param_fields)
  have e3: "td' ! 3 = 4" using el [of 0 1 1]
    by (simp add: mirror_layer_fields example_datum_0 example_world_casts example_param_fields)
  from r e0 e1 e2 e3 show ?thesis by blast
qed

subsection \<open>The element rule\<close>

lemma crop_stage_ok:
  assumes n: "0 < crop_size P"
      and dims: "crop_size P < datum_height L" "datum_height L < 2 ^ 31"
                "crop_size P < datum_width L" "datum_width L < 2 ^ 31"
      and rng: "phase L = TRAIN \<or> mirror P \<longrightarrow> prefetch_rng L \<noteq> None"
  shows "\<exists>h_off w_off L1 mirrored L2.
           crop_offsets P L = Inr ((h_off, w_off), L1) \<and> mirror_draw P L1 = Inr (mirrored, L2)"
proof (cases "phase L = TRAIN")
  case True
  with rng obtain g where g: "prefetch_rng L = Some g" by auto
  from crop_offsets_cases [OF n dims, of g, THEN conjunct1] True g
  obtain h_off w_off where co: "crop_offsets P L
      = Inr ((h_off, w_off), L\<lparr>prefetch_rng := Some (RNG (draws g) (used g + 2))\<rparr>)"
    by blast
  have "\<exists>m L2. mirror_draw P (L\<lparr>prefetch_rng := Some (RNG (draws g) (used g + 2))\<rparr>) = Inr (m, L2)"
    by (cases "mirror P") (auto simp: mirror_draw_def PrefetchRand_def)
  with co show ?thesis by blast
next
  case False
  from crop_offsets_cases [OF n dims, THEN conjunct2, THEN conjunct1] False
  obtain h_off w_off where co: "crop_offsets P L = Inr ((h_off, w_off), L)" by blast
  have "\<exists>m L2. mirror_draw P L = Inr (m, L2)"
  proof (cases "mirror P")
    case True
    with rng obtain g where "prefetch_rng L = Some g" by auto
    with True show ?thesis by (simp add: mirror_draw_def PrefetchRand_def)
  next
    case False
    then show ?thesis by (auto simp: mirror_draw_def)
  qed
  with co show ?thesis by blast
qed

text \<open>
  Claim C2.  For one sample written by the augmentation step (\<open>fill_item\<close>), on a record
  whose data and the mean have the size of the sample: the step succeeds, and every
  output element is \<open>(raw - mean) * scale\<close> at one source index \<open>s\<close> inside the sample,
  with \<open>raw\<close> the byte at \<open>s\<close> cast to \<open>Dtype\<close>, or the float at \<open>s\<close> when nothing is
  cropped and the record has no byte data.  With cropping, \<open>s\<close> is the index of the crop
  window for some offsets and mirror decision; without, it is the index of the element
  itself.  When the mean is 0 everywhere and \<open>scale = 1\<close>, the output element is the raw
  pixel itself, for every arithmetic of \<open>Dtype\<close> in which \<open>x - 0 = x\<close> and \<open>x * 1 = x\<close>.
  The arithmetic of \<open>Dtype\<close> is a parameter: only these two identities are used.
\<close>

theorem transform_element_rule:
  fixes W :: "('d::{minus,times,zero,one}, 'f) World"
  assumes crop: "crop_size P \<noteq> 0 \<longrightarrow>
                   0 < crop_size P \<and> crop_size P < datum_height L \<and> datum_height L < 2 ^ 31 \<and>
                   crop_size P < datum_width L \<and> datum_width L < 2 ^ 31 \<and> data d \<noteq> [] \<and>
                   (phase L = TRAIN \<or> mirror P \<longrightarrow> prefetch_rng L \<noteq> None)"
      and size: "datum_size L = datum_channels L * datum_height L * datum_width L"
      and len: "data d \<noteq> [] \<longrightarrow> int (length (data d)) = datum_size L"
               "data d = [] \<longrightarrow> int (length (float_data d)) = datum_size L"
               "int (length (cpu_data (data_mean L))) = datum_size L"
      and item: "0 \<le> item_id"
      and room: "(item_id + 1) * (if crop_size P \<noteq> 0
                                   then datum_channels L * (crop_size P * crop_size P)
                                   else datum_size L) \<le> int (length td)"
      and lab: "output_labels L \<longrightarrow> item_id < int (length lbl)"
  shows "\<exists>L' td' lbl'. fill_item W P d item_id (L, td, lbl) = Inr (L', td', lbl') \<and>
     (crop_size P \<noteq> 0 \<longrightarrow>
        (\<exists>h_off w_off mirrored.
           \<forall>c h w. 0 \<le> c \<and> c < datum_channels L \<and> 0 \<le> h \<and> h < crop_size P \<and>
                    0 \<le> w \<and> w < crop_size P \<longrightarrow>
             (let s = (c * datum_height L + h + h_off) * datum_width L
                        + (if mirrored then crop_size P - 1 - w else w) + w_off;
                  out = td' ! nat (((item_id * datum_channels L + c) * crop_size P + h) * crop_size P + w)
              in 0 \<le> s \<and> s < datum_size L \<and>
                 out = (raw_pixel W d s - cpu_data (data_mean L) ! nat s) * scale P \<and>
                 ((\<forall>x::'d. x - 0 = x) \<and> (\<forall>x::'d. x * 1 = x) \<and> scale P = 1 \<and>
                  (\<forall>m\<in>set (cpu_data (data_mean L)). m = 0) \<longrightarrow> out = raw_pixel W d s)))) \<and>
     (crop_size P = 0 \<longrightarrow>
        (\<forall>j. 0 \<le> j \<and> j < datum_size L \<longrightarrow>
           (let out = td' ! nat (item_id * datum_size L + j)
            in out = (raw_pixel W d j - cpu_data (data_mean L) ! nat j) * scale P \<and>
               ((\<forall>x::'d. x - 0 = x) \<and> (\<forall>x::'d. x * 1 = x) \<and> scale P = 1 \<and>
                (\<forall>m\<in>set (cpu_data (data_mean L)). m = 0) \<longrightarrow> out = raw_pixel W d j))))"
proof (cases "crop_size P = 0")
  case True
  have wf: "data d \<noteq> [] \<longrightarrow> datum_size L \<le> int (length (data d))"
    "data d = [] \<longrightarrow> datum_size L \<le> int (length (float_data d))"
    and mean: "datum_size L \<le> int (length (cpu_data (data_mean L)))"
    and room': "(item_id + 1) * datum_size L \<le> int (length td)"
    using len room True by simp_all
  from fill_item_flat [OF True wf mean item room' lab, of W]
  obtain td' where r: "fill_item W P d item_id (L, td, lbl)
              = Inr (L, td', if output_labels L then lbl[nat item_id := cast_label W (label d)] else lbl)"
    and el: "\<And>j. 0 \<le> j \<and> j < datum_size L \<Longrightarrow>
              td' ! nat (item_id * datum_size L + j)
                = (raw_pixel W d j - cpu_data (data_mean L) ! nat j) * scale P"
    by blast
  have ex: "td' ! nat (item_id * datum_size L + j) = raw_pixel W d j"
    if j: "0 \<le> j \<and> j < datum_size L"
      and e: "(\<forall>x::'d. x - 0 = x) \<and> (\<forall>x::'d. x * 1 = x) \<and> scale P = 1 \<and>
                (\<forall>m\<in>set (cpu_data (data_mean L)). m = 0)" for j
  proof -
    from j len(3) have "nat j < length (cpu_data (data_mean L))" by (simp add: nat_less_iff)
    then have "cpu_data (data_mean L) ! nat j \<in> set (cpu_data (data_mean L))" by (rule nth_mem)
    with e have "cpu_data (data_mean L) ! nat j = 0" by blast
    with el [OF j] e show ?thesis by simp
  qed
  show ?thesis
    by (intro exI conjI, rule r) (use True el ex in \<open>simp_all add: Let_def\<close>)
next
  case False
  with crop have n: "0 < crop_size P"
    and dims: "crop_size P < datum_height L" "datum_height L < 2 ^ 31"
              "crop_size P < datum_width L" "datum_width L < 2 ^ 31"
    and dat: "data d \<noteq> []"
    and rng: "phase L = TRAIN \<or> mirror P \<longrightarrow> prefetch_rng L \<noteq> None"
    by simp_all
  from crop_stage_ok [OF n dims rng] obtain h_off w_off L1 mirrored L2
    where co: "crop_offsets P L = Inr ((h_off, w_off), L1)"
      and md: "mirror_draw P L1 = Inr (mirrored, L2)" by blast
  note off = crop_offsets_window [OF n dims co]
  have len': "int (length (data d)) = datum_channels L * datum_height L * datum_width L"
    "int (length (cpu_data (data_mean L))) = datum_channels L * datum_height L * datum_width L"
    and room': "(item_id + 1) * (datum_channels L * (crop_size P * crop_size P)) \<le> int (length td)"
    using len dat size room False by simp_all
  from fill_item_crop [OF False dat co md off len' item room' lab, of W]
  obtain td' where r: "fill_item W P d item_id (L, td, lbl)
              = Inr (L2, td', if output_labels L then lbl[nat item_id := cast_label W (label d)] else lbl)"
    and el: "\<And>c h w. 0 \<le> c \<and> c < datum_channels L \<and> 0 \<le> h \<and> h < crop_size P \<and> 0 \<le> w \<and> w < crop_size P \<Longrightarrow>
              td' ! nat (((item_id * datum_channels L + c) * crop_size P + h) * crop_size P + w)
                = crop_element W P L (data d) h_off w_off c h (if mirrored then crop_size P - 1 - w else w)"
    by blast
  have all: "(let s = (c * datum_height L + h + h_off) * datum_width L
                        + (if mirrored then crop_size P - 1 - w else w) + w_off;
                  out = td' ! nat (((item_id * datum_channels L + c) * crop_size P + h) * crop_size P + w)
              in 0 \<le> s \<and> s < datum_size L \<and>
                 out = (raw_pixel W d s - cpu_data (data_mean L) ! nat s) * scale P \<and>
                 ((\<forall>x::'d. x - 0 = x) \<and> (\<forall>x::'d. x * 1 = x) \<and> scale P = 1 \<and>
                  (\<forall>m\<in>set (cpu_data (data_mean L)). m = 0) \<longrightarrow> out = raw_pixel W d s))"
    if b: "0 \<le> c \<and> c < datum_channels L \<and> 0 \<le> h \<and> h < crop_size P \<and> 0 \<le> w \<and> w < crop_size P"
    for c h w
  proof -
    let ?x = "if mirrored then crop_size P - 1 - w else w"
    let ?s = "(c * datum_height L + h + h_off) * datum_width L + ?x + w_off"
    let ?out = "td' ! nat (((item_id * datum_channels L + c) * crop_size P + h) * crop_size P + w)"
    have x: "0 \<le> ?x" "?x < crop_size P" using b by simp_all
    have c: "0 \<le> c" "c < datum_channels L" using b by simp_all
    have "0 \<le> h + h_off" "h + h_off < datum_height L" "0 \<le> ?x + w_off" "?x + w_off < datum_width L"
      using off b x by simp_all
    from src_bounds [OF c this]
    have s: "0 \<le> ?s" "?s < datum_size L" by (simp_all add: add.assoc size)
    have o: "?out = (raw_pixel W d ?s - cpu_data (data_mean L) ! nat ?s) * scale P"
      using el [OF b] dat by (simp add: crop_element_def raw_pixel_def)
    have e: "?out = raw_pixel W d ?s"
      if e: "(\<forall>x::'d. x - 0 = x) \<and> (\<forall>x::'d. x * 1 = x) \<and> scale P = 1 \<and>
                (\<forall>m\<in>set (cpu_data (data_mean L)). m = 0)"
    proof -
      from s len(3) have "nat ?s < length (cpu_data (data_mean L))" by (simp add: nat_less_iff)
      then have "cpu_data (data_mean L) ! nat ?s \<in> set (cpu_data (data_mean L))" by (rule nth_mem)
      with e have "cpu_data (data_mean L) ! nat ?s = 0" by blast
      with o e show ?thesis by simp
    qed
    from s o e show ?thesis unfolding Let_def by blast
  qed
  have "\<exists>h_off w_off mirrored.
           \<forall>c h w. 0 \<le> c \<and> c < datum_channels L \<and> 0 \<le> h \<and> h < crop_size P \<and>
                    0 \<le> w \<and> w < crop_size P \<longrightarrow>
             (let s = (c * datum_height L + h + h_off) * datum_width L
                        + (if mirrored then crop_size P - 1 - w else w) + w_off;
                  out = td' ! nat (((item_id * datum_channels L + c) * crop_size P + h) * crop_size P + w)
              in 0 \<le> s \<and> s < datum_size L \<and>
                 out = (raw_pixel W d s - cpu_data (data_mean L) ! nat s) * scale P \<and>
                 ((\<forall>x::'d. x - 0 = x) \<and> (\<forall>x::'d. x * 1 = x) \<and> scale P = 1 \<and>
                  (\<forall>m\<in>set (cpu_data (data_mean L)). m = 0) \<longrightarrow> out = raw_pixel W d s))"
    using all by blast
  then have A: "crop_size P \<noteq> 0 \<longrightarrow> (\<exists>h_off w_off mirrored.
           \<forall>c h w. 0 \<le> c \<and> c < datum_channels L \<and> 0 \<le> h \<and> h < crop_size P \<and>
                    0 \<le> w \<and> w < crop_size P \<longrightarrow>
             (let s = (c * datum_height L + h + h_off) * datum_width L
                        + (if mirrored then crop_size P - 1 - w else w) + w_off;
                  out = td' ! nat (((item_id * datum_channels L + c) * crop_size P + h) * crop_size P + w)
              in 0 \<le> s \<and> s < datum_size L \<and>
                 out = (raw_pixel W d s - cpu_data (data_mean L) ! nat s) * scale P \<and>
                 ((\<forall>x::'d. x - 0 = x) \<and> (\<forall>x::'d. x * 1 = x) \<and> scale P = 1 \<and>
                  (\<forall>m\<in>set (cpu_data (data_mean L)). m = 0) \<longrightarrow> out = raw_pixel W d s)))"
    by (rule impI)
  have B: "crop_size P = 0 \<longrightarrow>
        (\<forall>j. 0 \<le> j \<and> j < datum_size L \<longrightarrow>
           (let out = td' ! nat (item_id * datum_size L + j)
            in out = (raw_pixel W d j - cpu_data (data_mean L) ! nat j) * scale P \<and>
               ((\<forall>x::'d. x - 0 = x) \<and> (\<forall>x::'d. x * 1 = x) \<and> scale P = 1 \<and>
                (\<forall>m\<in>set (cpu_data (data_mean L)). m = 0) \<longrightarrow> out = raw_pixel W d j)))"
    using False by simp
  from r A B show ?thesis by (intro exI conjI)
qed

theorem transform_element_rule_witness:
  "(\<exists>L' td' lbl'.
      fill_item example_world example_param (example_datum 0) 0
        (flat_layer 0, replicate 18 0, replicate 2 0) = Inr (L', td', lbl') \<and>
      td' ! 0 = 1 \<and> td' ! 8 = 9)
   \<and> (\<exists>L' td' lbl'.
      fill_item example_world example_param example_float_datum 1
        (flat_layer 0, replicate 18 0, replicate 2 0) = Inr (L', td', lbl') \<and>
      td' ! 9 = 10 \<and> td' ! 17 = 90)
   \<and> (\<exists>L' td' lbl' s.
      fill_item example_world (example_param\<lparr>crop_size := 2\<rparr>) (example_datum 0) 0
        (cropped_layer\<lparr>phase := TEST\<rparr>, replicate 8 0, replicate 2 0) = Inr (L', td', lbl') \<and>
      0 \<le> s \<and> s < 9 \<and> td' ! 3 = uint (data (example_datum 0) ! nat s))"
proof -
  have exact: "(\<forall>x::int. x - 0 = x) \<and> (\<forall>x::int. x * 1 = x)" by simp
  note flat = transform_element_rule [where W = example_world and P = example_param
      and L = "flat_layer 0" and td = "replicate 18 0" and lbl = "replicate 2 0"]
  have "\<exists>L' td' lbl'. fill_item example_world example_param (example_datum 0) 0
        (flat_layer 0, replicate 18 0, replicate 2 0) = Inr (L', td', lbl') \<and>
     (crop_size example_param = 0 \<longrightarrow>
        (\<forall>j. 0 \<le> j \<and> j < datum_size (flat_layer 0) \<longrightarrow>
           td' ! nat (0 * datum_size (flat_layer 0) + j) = raw_pixel example_world (example_datum 0) j))"
    using flat [of "example_datum 0" 0] exact
    by (simp add: example_param_fields flat_layer_fields flat_layer_shape example_db_facts Let_def)
       blast?
  then obtain L' td' lbl' where r: "fill_item example_world example_param (example_datum 0) 0
        (flat_layer 0, replicate 18 0, replicate 2 0) = Inr (L', td', lbl')"
    and el: "\<And>j. 0 \<le> j \<and> j < 9 \<Longrightarrow> td' ! nat j = raw_pixel example_world (example_datum 0) j"
    by (auto simp: example_param_fields flat_layer_fields)
  have "td' ! 0 = 1" "td' ! 8 = 9"
    using el [of 0] el [of 8] by (simp_all add: raw_pixel_def example_datum_0 example_world_casts)
  with r have 1: "\<exists>L' td' lbl'.
      fill_item example_world example_param (example_datum 0) 0
        (flat_layer 0, replicate 18 0, replicate 2 0) = Inr (L', td', lbl') \<and>
      td' ! 0 = 1 \<and> td' ! 8 = 9" by blast
  have "\<exists>L' td' lbl'. fill_item example_world example_param example_float_datum 1
        (flat_layer 0, replicate 18 0, replicate 2 0) = Inr (L', td', lbl') \<and>
     (crop_size example_param = 0 \<longrightarrow>
        (\<forall>j. 0 \<le> j \<and> j < datum_size (flat_layer 0) \<longrightarrow>
           td' ! nat (1 * datum_size (flat_layer 0) + j) = raw_pixel example_world example_float_datum j))"
    using flat [of example_float_datum 1] exact
    by (simp add: example_param_fields flat_layer_fields flat_layer_shape example_float_datum_def Let_def)
       blast?
  then obtain L' td' lbl' where r: "fill_item example_world example_param example_float_datum 1
        (flat_layer 0, replicate 18 0, replicate 2 0) = Inr (L', td', lbl')"
    and el: "\<And>j. 0 \<le> j \<and> j < 9 \<Longrightarrow> td' ! nat (9 + j) = raw_pixel example_world example_float_datum j"
    by (auto simp: example_param_fields flat_layer_fields)
  have "td' ! 9 = 10" "td' ! 17 = 90"
    using el [of 0] el [of 8]
    by (simp_all add: raw_pixel_def example_float_datum_def example_world_def nat_add_distrib)
  with r have 2: "\<exists>L' td' lbl'.
      fill_item example_world example_param example_float_datum 1
        (flat_layer 0, replicate 18 0, replicate 2 0) = Inr (L', td', lbl') \<and>
      td' ! 9 = 10 \<and> td' ! 17 = 90" by blast
  let ?P = "example_param\<lparr>crop_size := 2\<rparr>" and ?L = "cropped_layer\<lparr>phase := TEST\<rparr>"
  have c: "crop_size ?P \<noteq> 0 \<longrightarrow>
             0 < crop_size ?P \<and> crop_size ?P < datum_height ?L \<and> datum_height ?L < 2 ^ 31 \<and>
             crop_size ?P < datum_width ?L \<and> datum_width ?L < 2 ^ 31 \<and> data (example_datum 0) \<noteq> [] \<and>
             (phase ?L = TRAIN \<or> mirror ?P \<longrightarrow> prefetch_rng ?L \<noteq> None)"
    by (simp add: cropped_layer_fields example_db_facts example_param_fields)
  have sz: "datum_size ?L = datum_channels ?L * datum_height ?L * datum_width ?L"
    by (simp add: cropped_layer_fields)
  have len: "data (example_datum 0) \<noteq> [] \<longrightarrow> int (length (data (example_datum 0))) = datum_size ?L"
    "data (example_datum 0) = [] \<longrightarrow> int (length (float_data (example_datum 0))) = datum_size ?L"
    "int (length (cpu_data (data_mean ?L))) = datum_size ?L"
    by (simp_all add: cropped_layer_fields example_db_facts)
  have room: "(0 + 1) * (if crop_size ?P \<noteq> 0
                           then datum_channels ?L * (crop_size ?P * crop_size ?P)
                           else datum_size ?L) \<le> int (length (replicate 8 (0::int)))"
    by (simp add: cropped_layer_fields)
  have lab: "output_labels ?L \<longrightarrow> 0 < int (length (replicate 2 (0::int)))" by simp
  have nz: "crop_size ?P \<noteq> 0" by simp
  from transform_element_rule [OF c sz len order_refl room lab, of example_world] nz
  obtain L' td' lbl' h_off w_off mirrored
    where r: "fill_item example_world ?P (example_datum 0) 0
        (?L, replicate 8 0, replicate 2 0) = Inr (L', td', lbl')"
      and el: "\<forall>c h w. 0 \<le> c \<and> c < datum_channels ?L \<and> 0 \<le> h \<and> h < crop_size ?P \<and>
                    0 \<le> w \<and> w < crop_size ?P \<longrightarrow>
             (let s = (c * datum_height ?L + h + h_off) * datum_width ?L
                        + (if mirrored then crop_size ?P - 1 - w else w) + w_off;
                  out = td' ! nat (((0 * datum_channels ?L + c) * crop_size ?P + h) * crop_size ?P + w)
              in 0 \<le> s \<and> s < datum_size ?L \<and>
                 out = (raw_pixel example_world (example_datum 0) s - cpu_data (data_mean ?L) ! nat s) * scale ?P \<and>
                 ((\<forall>x::int. x - 0 = x) \<and> (\<forall>x::int. x * 1 = x) \<and> scale ?P = 1 \<and>
                  (\<forall>m\<in>set (cpu_data (data_mean ?L)). m = 0) \<longrightarrow>
                  out = raw_pixel example_world (example_datum 0) s))"
    by blast
  define s where "s = (0 * datum_height ?L + 1 + h_off) * datum_width ?L
                        + (if mirrored then crop_size ?P - 1 - 1 else 1) + w_off"
  have b: "0 \<le> (0::int) \<and> 0 < datum_channels ?L \<and> 0 \<le> (1::int) \<and> 1 < crop_size ?P \<and>
           0 \<le> (1::int) \<and> 1 < crop_size ?P"
    by (simp add: cropped_layer_fields)
  have ex': "(\<forall>x::int. x - 0 = x) \<and> (\<forall>x::int. x * 1 = x) \<and> scale ?P = 1 \<and>
                  (\<forall>m\<in>set (cpu_data (data_mean ?L)). m = 0)"
    by (simp add: cropped_layer_fields example_param_fields)
  from el [rule_format, OF b, unfolded Let_def, folded s_def] ex'
  have "0 \<le> s" "s < datum_size ?L"
    "td' ! nat (((0 * datum_channels ?L + 0) * crop_size ?P + 1) * crop_size ?P + 1)
       = raw_pixel example_world (example_datum 0) s"
    by blast+
  then have "0 \<le> s \<and> s < 9 \<and> td' ! 3 = uint (data (example_datum 0) ! nat s)"
    by (simp add: cropped_layer_fields raw_pixel_def example_db_facts example_world_casts)
  with r have 3: "\<exists>L' td' lbl' s.
      fill_item example_world ?P (example_datum 0) 0
        (?L, replicate 8 0, replicate 2 0) = Inr (L', td', lbl') \<and>
      0 \<le> s \<and> s < 9 \<and> td' ! 3 = uint (data (example_datum 0) ! nat s)" by blast
  from 1 2 3 show ?thesis by (intro conjI)
qed

end
